theory Spec2Isabelle
  imports Complex_Main "HOL-Library.Word"
begin

section \<open>Arrays\<close>

text \<open>
  The attention layer of \<^verbatim>\<open>layers/llama2.py\<close> works on rank-4 arrays: the projected
  query, key and value are \<^verbatim>\<open>[batch, length, num_heads, head_dim]\<close>, the cache is
  \<^verbatim>\<open>[batch, num_heads, head_dim, length]\<close>, masks and biases are
  \<^verbatim>\<open>[batch, num_heads, q_length, kv_length]\<close>. An array is its shape together with
  its element at every index; only the elements at indices inside the shape are the
  array's contents. Elements are exact numbers: rounding, infinities and NaN of the
  floating-point dtype are outside this model.
\<close>

type_synonym shape4 = "nat \<times> nat \<times> nat \<times> nat"

record 'a array4 =
  shape :: shape4
  elem :: "nat \<Rightarrow> nat \<Rightarrow> nat \<Rightarrow> nat \<Rightarrow> 'a"

text \<open>The contents of an array, read back as nested lists in index order.\<close>

definition tabulate4 :: "shape4 \<Rightarrow> (nat \<Rightarrow> nat \<Rightarrow> nat \<Rightarrow> nat \<Rightarrow> 'a) \<Rightarrow> 'a list list list list" where
  "tabulate4 s f = (case s of (n1, n2, n3, n4) \<Rightarrow>
     map (\<lambda>i. map (\<lambda>j. map (\<lambda>k. map (\<lambda>m. f i j k m) [0..<n4]) [0..<n3]) [0..<n2]) [0..<n1])"

definition contents :: "'a array4 \<Rightarrow> 'a list list list list" where
  "contents x = tabulate4 (shape x) (elem x)"

text \<open>Two arrays are the same array when shape and contents agree.\<close>

definition array_equal :: "'a array4 \<Rightarrow> 'a array4 \<Rightarrow> bool" where
  "array_equal x y \<longleftrightarrow> shape x = shape y \<and> contents x = contents y"

datatype error =
  CacheShapeError shape4 shape4  \<comment> \<open>the \<^verbatim>\<open>ValueError\<close> of the cache sanity check: expected, got\<close>
  | BroadcastError               \<comment> \<open>operands whose shapes do not broadcast\<close>
  | SqueezeError                 \<comment> \<open>\<^verbatim>\<open>jnp.squeeze\<close> of an axis whose size is not 1\<close>
  | SliceError                   \<comment> \<open>a slice longer than the axis it is taken from\<close>
  | ContractionError             \<comment> \<open>operands of a contraction whose shapes disagree\<close>
  | ConfigurationError           \<comment> \<open>odd \<^verbatim>\<open>head_dim\<close>, malformed bias shape\<close>
  | MissingRngError              \<comment> \<open>\<^verbatim>\<open>make_rng('dropout')\<close> without a dropout key\<close>

text \<open>\<^verbatim>\<open>jnp.zeros(shape, dtype)\<close>\<close>

definition zeros :: "shape4 \<Rightarrow> real array4" where
  "zeros s = \<lparr>shape = s, elem = (\<lambda>_ _ _ _. 0)\<rparr>"

text \<open>
  Broadcasting of a binary operation, as numpy and jax do it: two sizes are compatible
  when they are equal or one of them is 1, and the operand of size 1 is read at index 0.
\<close>

definition broadcast_dim :: "nat \<Rightarrow> nat \<Rightarrow> nat option" where
  "broadcast_dim m n =
     (if m = n then Some m else if m = 1 then Some n else if n = 1 then Some m else None)"

definition broadcast_shapes :: "shape4 \<Rightarrow> shape4 \<Rightarrow> shape4 option" where
  "broadcast_shapes s t = (case (s, t) of ((a1, a2, a3, a4), (b1, b2, b3, b4)) \<Rightarrow>
     (case (broadcast_dim a1 b1, broadcast_dim a2 b2, broadcast_dim a3 b3, broadcast_dim a4 b4) of
        (Some c1, Some c2, Some c3, Some c4) \<Rightarrow> Some (c1, c2, c3, c4)
      | _ \<Rightarrow> None))"

text \<open>A shape fits a target when broadcasting it against the target gives the target.\<close>

definition fits :: "shape4 \<Rightarrow> shape4 \<Rightarrow> bool" where
  "fits s t \<longleftrightarrow> broadcast_shapes s t = Some t"

definition bidx :: "nat \<Rightarrow> nat \<Rightarrow> nat" where
  "bidx n i = (if n = 1 then 0 else i)"

definition broadcast_at :: "'a array4 \<Rightarrow> nat \<Rightarrow> nat \<Rightarrow> nat \<Rightarrow> nat \<Rightarrow> 'a" where
  "broadcast_at x i j k m = (case shape x of (n1, n2, n3, n4) \<Rightarrow>
     elem x (bidx n1 i) (bidx n2 j) (bidx n3 k) (bidx n4 m))"

definition broadcast2 :: "('a \<Rightarrow> 'b \<Rightarrow> 'c) \<Rightarrow> 'a array4 \<Rightarrow> 'b array4 \<Rightarrow> error + 'c array4" where
  "broadcast2 f x y = (case broadcast_shapes (shape x) (shape y) of
       None \<Rightarrow> Inl BroadcastError
     | Some s \<Rightarrow> Inr \<lparr>shape = s,
                      elem = (\<lambda>i j k m. f (broadcast_at x i j k m) (broadcast_at y i j k m))\<rparr>)"

text \<open>\<^verbatim>\<open>swap_dims\<close>, the local function of the decode branch, on a rank-4 shape tuple:
  \<^verbatim>\<open>x[:-3] + tuple(x[i] for i in [-2, -1, -3])\<close>.\<close>

definition swap_dims :: "shape4 \<Rightarrow> shape4" where
  "swap_dims x = (case x of (b, l, h, d) \<Rightarrow> (b, h, d, l))"

text \<open>\<^verbatim>\<open>jnp.moveaxis(x, -3, -1)\<close>: the length axis goes to the back.\<close>

definition moveaxis_m3_m1 :: "'a array4 \<Rightarrow> 'a array4" where
  "moveaxis_m3_m1 x = (case shape x of (b, l, h, d) \<Rightarrow>
     \<lparr>shape = (b, h, d, l), elem = (\<lambda>i j k m. elem x i m j k)\<rparr>)"

text \<open>\<^verbatim>\<open>jnp.moveaxis(x, -1, -3)\<close>: the length axis comes back to position 1.\<close>

definition moveaxis_m1_m3 :: "'a array4 \<Rightarrow> 'a array4" where
  "moveaxis_m1_m3 x = (case shape x of (b, h, d, l) \<Rightarrow>
     \<lparr>shape = (b, l, h, d), elem = (\<lambda>i m j k. elem x i j k m)\<rparr>)"

text \<open>
  \<^verbatim>\<open>jax.nn.one_hot(cur_index, length)\<close>: the comparison of the index with
  \<^verbatim>\<open>arange(length)\<close>, cast to the dtype. The index is a signed 32-bit integer. The
  vector of shape \<^verbatim>\<open>(length,)\<close> is kept as the rank-4 array \<^verbatim>\<open>(1, 1, 1, length)\<close> that
  broadcasting aligns it to.
\<close>

definition one_hot :: "32 word \<Rightarrow> nat \<Rightarrow> real array4" where
  "one_hot cur_index n =
     \<lparr>shape = (1, 1, 1, n), elem = (\<lambda>_ _ _ m. if int m = sint cur_index then 1 else 0)\<rparr>"

section \<open>The cache collection\<close>

text \<open>
  The three variables of the flax collection \<^verbatim>\<open>'cache'\<close>; each is absent until a call
  creates it.
\<close>

record cache =
  cached_key :: "real array4 option"
  cached_value :: "real array4 option"
  cache_index :: "32 word option"

definition empty_cache :: cache where
  "empty_cache = \<lparr>cached_key = None, cached_value = None, cache_index = None\<rparr>"

text \<open>\<^verbatim>\<open>self.has_variable('cache', 'cached_key')\<close>\<close>

definition has_cached_key :: "cache \<Rightarrow> bool" where
  "has_cached_key c \<longleftrightarrow> cached_key c \<noteq> None"

text \<open>\<^verbatim>\<open>self.variable(col, name, init_fn, *args)\<close>: the stored value when the variable
  exists, the initial value otherwise.\<close>

definition variable :: "'a option \<Rightarrow> 'a \<Rightarrow> 'a" where
  "variable v init = (case v of None \<Rightarrow> init | Some x \<Rightarrow> x)"

text \<open>\<^verbatim>\<open>expected_shape = (batch, 1, num_heads, head_dim)\<close> from the shape of the cached key.\<close>

definition expected_shape :: "shape4 \<Rightarrow> shape4" where
  "expected_shape s = (case s of (batch, num_heads, head_dim, len) \<Rightarrow> (batch, 1, num_heads, head_dim))"

text \<open>
  Lines 176 to 196: the one-hot scatter of the step's key and value into the cache and
  the advance of the index. Returns the new collection, the index before the step and
  the full key and value in their original layout.
\<close>

definition cache_update ::
  "real array4 \<Rightarrow> real array4 \<Rightarrow> 32 word \<Rightarrow> real array4 \<Rightarrow> real array4 \<Rightarrow>
   error + (cache \<times> 32 word \<times> real array4 \<times> real array4)" where
  "cache_update ck cv ci key val =
     (case shape ck of (batch, num_heads, head_dim, len) \<Rightarrow>
      (let cur_index = ci;
           one_hot_indices = one_hot cur_index len;
           one_token_key = moveaxis_m3_m1 key;
           one_token_value = moveaxis_m3_m1 val
       in (case broadcast2 (*) one_token_key one_hot_indices of Inl e \<Rightarrow> Inl e | Inr pk \<Rightarrow>
          (case broadcast2 (+) ck pk of Inl e \<Rightarrow> Inl e | Inr key' \<Rightarrow>
          (case broadcast2 (*) one_token_value one_hot_indices of Inl e \<Rightarrow> Inl e | Inr pv \<Rightarrow>
          (case broadcast2 (+) cv pv of Inl e \<Rightarrow> Inl e | Inr val' \<Rightarrow>
            Inr (\<lparr>cached_key = Some key', cached_value = Some val',
                   cache_index = Some (ci + 1)\<rparr>,
                 cur_index, moveaxis_m1_m3 key', moveaxis_m1_m3 val')))))))"

section \<open>Masks and biases of a decode step\<close>

text \<open>
  Lines 204 to 209: \<^verbatim>\<open>jnp.broadcast_to(jnp.arange(length) <= cur_index, (batch, 1, 1, length))\<close>,
  a signed 32-bit comparison.
\<close>

definition causal_mask :: "nat \<Rightarrow> nat \<Rightarrow> 32 word \<Rightarrow> bool array4" where
  "causal_mask batch len cur_index =
     \<lparr>shape = (batch, 1, 1, len), elem = (\<lambda>_ _ _ m. int m \<le> sint cur_index)\<rparr>"

text \<open>
  Modelled from the spec: \<^verbatim>\<open>models.combine_masks\<close> (layers/models.py is not part of the
  sources). Masks are boolean with true meaning attend; the causal mask restricts the
  query row and is combined with the supplied mask, so a key position is attended only
  where every mask present allows it. An absent mask imposes nothing.
\<close>

definition combine_masks :: "bool array4 option \<Rightarrow> bool array4 option \<Rightarrow> error + bool array4 option" where
  "combine_masks m1 m2 =
     (case m1 of
        None \<Rightarrow> Inr m2
      | Some a \<Rightarrow>
         (case m2 of
            None \<Rightarrow> Inr (Some a)
          | Some b \<Rightarrow> (case broadcast2 (\<and>) a b of Inl e \<Rightarrow> Inl e | Inr c \<Rightarrow> Inr (Some c))))"

text \<open>
  The start of a dynamic slice of the given size along an axis of size \<^verbatim>\<open>n\<close>, as
  \<^verbatim>\<open>lax.dynamic_slice\<close> computes it: a negative index counts from the end, and the
  start is clamped so that the slice lies inside the axis.
\<close>

definition slice_start :: "32 word \<Rightarrow> nat \<Rightarrow> nat \<Rightarrow> nat" where
  "slice_start idx n sz =
     (let i = sint idx; j = (if i < 0 then i + int n else i)
      in nat (max 0 (min j (int n - int sz))))"

text \<open>\<^verbatim>\<open>jnp.squeeze(bias, axis=0)\<close> fails unless the leading axis has size 1. The squeezed
  array is kept in rank 4 with its leading size 1.\<close>

definition squeeze0 :: "'a array4 \<Rightarrow> error + 'a array4" where
  "squeeze0 x = (case shape x of (n0, n1, n2, n3) \<Rightarrow> if n0 \<noteq> 1 then Inl SqueezeError else Inr x)"

text \<open>
  Modelled from the spec: \<^verbatim>\<open>models.dynamic_vector_slice_in_dim\<close> (layers/models.py is not
  part of the sources), as called at line 217 with one start index, slice size 1 and
  axis -2: exactly one row is sliced from the full bias at the current, runtime index.
  The result has the shape \<^verbatim>\<open>(1, num_heads, 1, kv_length)\<close>, the leading axis coming
  from the one-element vector of start indices.
\<close>

definition dynamic_vector_slice_in_dim :: "'a array4 \<Rightarrow> 32 word \<Rightarrow> error + 'a array4" where
  "dynamic_vector_slice_in_dim operand cur_index =
     (case shape operand of (n0, nh, nq, nk) \<Rightarrow>
        if nq < 1 then Inl SliceError
        else Inr \<lparr>shape = (1, nh, 1, nk),
                  elem = (\<lambda>_ h _ k. elem operand 0 h (slice_start cur_index nq 1) k)\<rparr>)"

text \<open>Lines 213 to 218: the bias of a decode step.\<close>

definition decode_bias :: "real array4 option \<Rightarrow> 32 word \<Rightarrow> error + real array4 option" where
  "decode_bias bias cur_index =
     (case bias of
        None \<Rightarrow> Inr None
      | Some b \<Rightarrow>
         (case squeeze0 b of Inl e \<Rightarrow> Inl e | Inr sq \<Rightarrow>
         (case dynamic_vector_slice_in_dim sq cur_index of Inl e \<Rightarrow> Inl e
          | Inr r \<Rightarrow> Inr (Some r))))"

text \<open>
  Lines 150 to 218, on the projected query, key and value: the decode branch. The first
  decode call of a session finds no \<^verbatim>\<open>cached_key\<close>, creates the three variables and
  leaves key, value, mask and bias as they are; later calls check the query's shape,
  update the cache, and restrict mask and bias to the current position. A call that
  raises leaves no new collection behind.
\<close>

definition decode_branch ::
  "cache \<Rightarrow> real array4 \<Rightarrow> real array4 \<Rightarrow> real array4 \<Rightarrow> bool array4 option \<Rightarrow> real array4 option \<Rightarrow>
   error + (cache \<times> real array4 \<times> real array4 \<times> bool array4 option \<times> real array4 option)" where
  "decode_branch c query key val msk bias =
     (let is_initialized = has_cached_key c;
          ck = variable (cached_key c) (zeros (swap_dims (shape key)));
          cv = variable (cached_value c) (zeros (swap_dims (shape val)));
          ci = variable (cache_index c) 0
      in if is_initialized then
           (case shape ck of (batch, num_heads, head_dim, len) \<Rightarrow>
             if expected_shape (shape ck) \<noteq> shape query
             then Inl (CacheShapeError (expected_shape (shape ck)) (shape query))
             else (case cache_update ck cv ci key val of Inl e \<Rightarrow> Inl e
                   | Inr (c', cur_index, key', val') \<Rightarrow>
                  (case combine_masks msk (Some (causal_mask batch len cur_index)) of Inl e \<Rightarrow> Inl e
                   | Inr msk' \<Rightarrow>
                  (case decode_bias bias cur_index of Inl e \<Rightarrow> Inl e
                   | Inr bias' \<Rightarrow> Inr (c', key', val', msk', bias')))))
         else Inr (\<lparr>cached_key = Some ck, cached_value = Some cv, cache_index = Some ci\<rparr>,
                   key, val, msk, bias))"

text \<open>
  Lines 221 to 228: the boolean mask as an additive bias. The two constants \<^verbatim>\<open>0.\<close> and
  the sentinel \<^verbatim>\<open>-1e10\<close> are cast to the module's dtype, \<^verbatim>\<open>.astype(self.dtype)\<close>; the
  cast is the function \<^verbatim>\<open>astype\<close> that rounds a number to that dtype.
\<close>

definition mask_to_bias :: "(real \<Rightarrow> real) \<Rightarrow> bool array4 option \<Rightarrow> real array4 option" where
  "mask_to_bias astype msk =
     (case msk of
        None \<Rightarrow> None
      | Some m \<Rightarrow> Some \<lparr>shape = shape m,
                         elem = (\<lambda>i j k l. if elem m i j k l then astype 0
                                            else astype (- 10000000000))\<rparr>)"

text \<open>
  Modelled from the spec: \<^verbatim>\<open>models.combine_biases\<close> (layers/models.py is not part of the
  sources). Biases are additive; an absent bias adds nothing.
\<close>

definition combine_biases :: "real array4 option \<Rightarrow> real array4 option \<Rightarrow> error + real array4 option" where
  "combine_biases b1 b2 =
     (case b1 of
        None \<Rightarrow> Inr b2
      | Some a \<Rightarrow>
         (case b2 of
            None \<Rightarrow> Inr (Some a)
          | Some b \<Rightarrow> (case broadcast2 (+) a b of Inl e \<Rightarrow> Inl e | Inr c \<Rightarrow> Inr (Some c))))"

text \<open>Lines 220 to 232: the attention bias from the mask and the provided bias.\<close>

definition compose_bias ::
  "(real \<Rightarrow> real) \<Rightarrow> bool array4 option \<Rightarrow> real array4 option \<Rightarrow> error + real array4 option" where
  "compose_bias astype msk bias =
     (let attention_bias = mask_to_bias astype msk
      in if bias \<noteq> None then combine_biases attention_bias bias else Inr attention_bias)"

text \<open>
  Lines 234 to 236. A PRNG key is a pair of 32-bit words; \<^verbatim>\<open>make_rng('dropout')\<close> fails
  when no key was supplied for the \<^verbatim>\<open>'dropout'\<close> stream, and otherwise returns the key
  derived from the supplied one by folding in the path of the module and the count of
  its earlier draws; that derivation is the function \<^verbatim>\<open>derive\<close>.
\<close>

type_synonym prng_key = "32 word \<times> 32 word"

definition make_rng :: "(prng_key \<Rightarrow> prng_key) \<Rightarrow> prng_key option \<Rightarrow> error + prng_key" where
  "make_rng derive rngs = (case rngs of None \<Rightarrow> Inl MissingRngError | Some k \<Rightarrow> Inr (derive k))"

definition dropout_rng ::
  "(prng_key \<Rightarrow> prng_key) \<Rightarrow> bool \<Rightarrow> real \<Rightarrow> prng_key option \<Rightarrow> error + prng_key option" where
  "dropout_rng derive deterministic dropout_rate rngs =
     (if \<not> deterministic \<and> dropout_rate > 0
      then (case make_rng derive rngs of Inl e \<Rightarrow> Inl e | Inr k \<Rightarrow> Inr (Some k))
      else Inr None)"

section \<open>The attention core\<close>

text \<open>
  The attributes and parameters of the attention module: the kernels of the four
  projections, the base constant of the rotary encoder, the keyed random source of
  dropout, which says for a key, a keep probability and a shape which elements are kept,
  the cast of a constant to the module's \<^verbatim>\<open>dtype\<close>, and the derivation of the call's
  dropout key from the supplied one.
\<close>

record attention_module =
  num_heads :: nat
  head_dim :: nat
  dropout_rate :: real
  query_kernel :: "nat \<Rightarrow> nat \<Rightarrow> nat \<Rightarrow> real"
  key_kernel :: "nat \<Rightarrow> nat \<Rightarrow> nat \<Rightarrow> real"
  value_kernel :: "nat \<Rightarrow> nat \<Rightarrow> nat \<Rightarrow> real"
  out_kernel :: "nat \<Rightarrow> nat \<Rightarrow> nat \<Rightarrow> real"
  rope_base :: real
  bernoulli :: "prng_key \<Rightarrow> real \<Rightarrow> shape4 \<Rightarrow> nat \<Rightarrow> nat \<Rightarrow> nat \<Rightarrow> nat \<Rightarrow> bool"
  dtype :: "real \<Rightarrow> real"
  rng_fold :: "prng_key \<Rightarrow> prng_key"

text \<open>
  Modelled from the spec: \<^verbatim>\<open>apply_attention\<close> of the base class in layers/models.py,
  which is not part of the sources, in its dense form. Logits are the products of query
  and key over the head dimension plus the bias, with no rescaling, and a bias whose
  shape does not broadcast to the logits is malformed; the weights are the
  softmax of the logits over the key axis; dropout is applied to the weights only when
  a dropout key was drawn (a dropped weight is 0, a kept one is divided by the keep
  probability); the output is the product of weights and values.
\<close>

definition attention_logits :: "real array4 \<Rightarrow> real array4 \<Rightarrow> real array4 option \<Rightarrow> error + real array4" where
  "attention_logits query key bias =
     (case shape query of (b, lq, h, d) \<Rightarrow>
      (case shape key of (b', lk, h', d') \<Rightarrow>
        if b \<noteq> b' \<or> h \<noteq> h' \<or> d \<noteq> d' then Inl ContractionError
        else (let qk = \<lparr>shape = (b, h, lq, lk),
                         elem = (\<lambda>i j q k. \<Sum>m<d. elem query i q j m * elem key i k j m)\<rparr>
              in (case bias of
                    None \<Rightarrow> Inr qk
                  | Some a \<Rightarrow>
                      if fits (shape a) (shape qk) then broadcast2 (+) qk a
                      else Inl ConfigurationError))))"

definition softmax :: "real array4 \<Rightarrow> real array4" where
  "softmax x = (case shape x of (b, h, lq, lk) \<Rightarrow>
     \<lparr>shape = shape x,
      elem = (\<lambda>i j q k. exp (elem x i j q k) / (\<Sum>k'<lk. exp (elem x i j q k')))\<rparr>)"

definition dropout :: "attention_module \<Rightarrow> prng_key \<Rightarrow> real array4 \<Rightarrow> real array4" where
  "dropout md k x =
     (let keep_prob = 1 - dropout_rate md
      in \<lparr>shape = shape x,
          elem = (\<lambda>i j q m. if bernoulli md k keep_prob (shape x) i j q m
                             then elem x i j q m / keep_prob else 0)\<rparr>)"

definition attention_weights ::
  "attention_module \<Rightarrow> real array4 \<Rightarrow> real array4 \<Rightarrow> real array4 option \<Rightarrow> prng_key option \<Rightarrow>
   error + real array4" where
  "attention_weights md query key bias rng =
     (case attention_logits query key bias of Inl e \<Rightarrow> Inl e
      | Inr logits \<Rightarrow>
         (let w = softmax logits
          in (case rng of None \<Rightarrow> Inr w | Some k \<Rightarrow> Inr (dropout md k w))))"

definition apply_attention ::
  "attention_module \<Rightarrow> real array4 \<Rightarrow> real array4 \<Rightarrow> real array4 \<Rightarrow> real array4 option \<Rightarrow>
   prng_key option \<Rightarrow> error + real array4" where
  "apply_attention md query key val bias rng =
     (case attention_weights md query key bias rng of Inl e \<Rightarrow> Inl e
      | Inr w \<Rightarrow>
        (case shape w of (b, h, lq, lk) \<Rightarrow>
        (case shape val of (b', lk', h', d') \<Rightarrow>
          if b \<noteq> b' \<or> h \<noteq> h' \<or> lk \<noteq> lk' then Inl ContractionError
          else Inr \<lparr>shape = (b, lq, h, d'),
                    elem = (\<lambda>i q j m. \<Sum>k<lk. elem w i j q k * elem val i k j m)\<rparr>)))"

text \<open>
  Lines 150 to 240, on the projected and rotated query, key and value: the cache
  protocol, the attention bias, the dropout key and the attention itself. The result is
  the cache collection after the call and the attention output.
\<close>

definition attention_arguments ::
  "attention_module \<Rightarrow> cache \<Rightarrow> real array4 \<Rightarrow> real array4 \<Rightarrow> real array4 \<Rightarrow>
   bool array4 option \<Rightarrow> real array4 option \<Rightarrow> bool \<Rightarrow> bool \<Rightarrow> prng_key option \<Rightarrow>
   error + (cache \<times> real array4 \<times> real array4 \<times> real array4 option \<times> prng_key option)" where
  "attention_arguments md c query key val msk bias decode deterministic rngs =
     (case (if decode then decode_branch c query key val msk bias
            else Inr (c, key, val, msk, bias)) of Inl e \<Rightarrow> Inl e
      | Inr (c', key', val', msk', bias') \<Rightarrow>
     (case compose_bias (dtype md) msk' bias' of Inl e \<Rightarrow> Inl e
      | Inr attention_bias \<Rightarrow>
     (case dropout_rng (rng_fold md) deterministic (dropout_rate md) rngs of Inl e \<Rightarrow> Inl e
      | Inr rng \<Rightarrow> Inr (c', key', val', attention_bias, rng))))"

definition attention_core ::
  "attention_module \<Rightarrow> cache \<Rightarrow> real array4 \<Rightarrow> real array4 \<Rightarrow> real array4 \<Rightarrow>
   bool array4 option \<Rightarrow> real array4 option \<Rightarrow> bool \<Rightarrow> bool \<Rightarrow> prng_key option \<Rightarrow>
   error + (cache \<times> real array4)" where
  "attention_core md c query key val msk bias decode deterministic rngs =
     (case attention_arguments md c query key val msk bias decode deterministic rngs of
        Inl e \<Rightarrow> Inl e
      | Inr (c', key', val', attention_bias, rng) \<Rightarrow>
         (case apply_attention md query key' val' attention_bias rng of Inl e \<Rightarrow> Inl e
          | Inr x \<Rightarrow> Inr (c', x)))"

section \<open>Decoding sessions\<close>

text \<open>
  The inputs of one decode call after projection: query, key, value, mask and bias. A
  session issues its calls one after the other, each on the collection the previous
  one left; a call that raises ends the session.
\<close>

type_synonym decode_inputs =
  "real array4 \<times> real array4 \<times> real array4 \<times> bool array4 option \<times> real array4 option"

definition step_key :: "decode_inputs \<Rightarrow> real array4" where
  "step_key x = (case x of (q, k, v, m, b) \<Rightarrow> k)"

fun decode_calls ::
  "attention_module \<Rightarrow> bool \<Rightarrow> prng_key option \<Rightarrow> cache \<Rightarrow> decode_inputs list \<Rightarrow> error + cache" where
  "decode_calls md deterministic rngs c [] = Inr c"
| "decode_calls md deterministic rngs c (x # xs) =
     (case x of (q, k, v, m, b) \<Rightarrow>
       (case attention_core md c q k v m b True deterministic rngs of
          Inl e \<Rightarrow> Inl e
        | Inr (c', out) \<Rightarrow> decode_calls md deterministic rngs c' xs))"

text \<open>
  A single-token decode call against a cache of shape \<^verbatim>\<open>(batch, num_heads, head_dim,
  max_length)\<close>: query, key and value are \<^verbatim>\<open>(batch, 1, num_heads, head_dim)\<close>; a mask,
  when given, broadcasts to the logits \<^verbatim>\<open>(batch, num_heads, 1, max_length)\<close>; a bias, when
  given, has leading size 1, at least one row, and rows that broadcast to the logits; a
  dropout key is supplied when dropout is on.
\<close>

definition single_token_call ::
  "attention_module \<Rightarrow> bool \<Rightarrow> prng_key option \<Rightarrow> shape4 \<Rightarrow> decode_inputs \<Rightarrow> bool" where
  "single_token_call md deterministic rngs s x =
     (case s of (batch, nh, dh, len) \<Rightarrow>
      (case x of (q, k, v, m, b) \<Rightarrow>
         shape q = (batch, 1, nh, dh) \<and> shape k = (batch, 1, nh, dh) \<and>
         shape v = (batch, 1, nh, dh) \<and>
         (case m of None \<Rightarrow> True | Some a \<Rightarrow> fits (shape a) (batch, nh, 1, len)) \<and>
         (case b of None \<Rightarrow> True
          | Some a \<Rightarrow> (case shape a of (n0, n1, nq, nk) \<Rightarrow>
              n0 = 1 \<and> 1 \<le> nq \<and> fits (1, n1, 1, nk) (batch, nh, 1, len))) \<and>
         (deterministic \<or> dropout_rate md \<le> 0 \<or> rngs \<noteq> None)))"

text \<open>Concatenation of arrays along the length axis (axis 1), as \<^verbatim>\<open>jnp.concatenate\<close>
  does it for arrays that agree on the other axes.\<close>

definition concatenate1 :: "'a array4 \<Rightarrow> 'a array4 \<Rightarrow> 'a array4" where
  "concatenate1 x y =
     (case shape x of (b, l1, h, d) \<Rightarrow>
      (case shape y of (b', l2, h', d') \<Rightarrow>
        \<lparr>shape = (b, l1 + l2, h, d),
         elem = (\<lambda>i t j m. if t < l1 then elem x i t j m else elem y i (t - l1) j m)\<rparr>))"

definition concatenate_steps :: "nat \<Rightarrow> nat \<Rightarrow> nat \<Rightarrow> real array4 list \<Rightarrow> real array4" where
  "concatenate_steps batch nh dh xs = foldl concatenate1 (zeros (batch, 0, nh, dh)) xs"

text \<open>
  The one-hot update of a cache array \<^verbatim>\<open>c\<close> with the step array \<^verbatim>\<open>x\<close> at index
  \<^verbatim>\<open>ci\<close>, written out: \<^verbatim>\<open>c + moveaxis(x, -3, -1) * one_hot(ci, length)\<close> for shapes
  that need no broadcasting beyond the one-hot vector.
\<close>

definition scatter :: "real array4 \<Rightarrow> 32 word \<Rightarrow> real array4 \<Rightarrow> real array4" where
  "scatter c ci x =
     (case shape c of (b, h, d, l) \<Rightarrow>
       (let p = \<lparr>shape = shape c,
                 elem = (\<lambda>i j k m. broadcast_at (moveaxis_m3_m1 x) i j k m *
                                   broadcast_at (one_hot ci l) i j k m)\<rparr>
        in \<lparr>shape = shape c,
            elem = (\<lambda>i j k m. broadcast_at c i j k m + broadcast_at p i j k m)\<rparr>))"

section \<open>The attention call\<close>

text \<open>The inputs and the output of the layer are rank-3 arrays \<^verbatim>\<open>[batch, length, features]\<close>.\<close>

type_synonym shape3 = "nat \<times> nat \<times> nat"

record 'a array3 =
  shape3 :: shape3
  elem3 :: "nat \<Rightarrow> nat \<Rightarrow> nat \<Rightarrow> 'a"

text \<open>
  Modelled from the spec: \<^verbatim>\<open>models.DenseGeneral\<close> (layers/models.py is not part of the
  sources), the linear projection primitive with named output axes. With \<^verbatim>\<open>axis=-1\<close> and
  \<^verbatim>\<open>features=(num_heads, head_dim)\<close> it maps \<^verbatim>\<open>[batch, length, features]\<close> to
  \<^verbatim>\<open>[batch, length, num_heads, head_dim]\<close>; with \<^verbatim>\<open>axis=(-2, -1)\<close> it maps back to
  \<^verbatim>\<open>[batch, length, features]\<close> with the number of features it is given.
\<close>

definition projection :: "(nat \<Rightarrow> nat \<Rightarrow> nat \<Rightarrow> real) \<Rightarrow> nat \<Rightarrow> nat \<Rightarrow> real array3 \<Rightarrow> real array4" where
  "projection w nh dh x = (case shape3 x of (b, l, f) \<Rightarrow>
     \<lparr>shape = (b, l, nh, dh),
      elem = (\<lambda>i t j m. \<Sum>e<f. elem3 x i t e * w e j m)\<rparr>)"

definition out_projection :: "(nat \<Rightarrow> nat \<Rightarrow> nat \<Rightarrow> real) \<Rightarrow> nat \<Rightarrow> real array4 \<Rightarrow> real array3" where
  "out_projection w features x = (case shape x of (b, l, h, d) \<Rightarrow>
     \<lparr>shape3 = (b, l, features),
      elem3 = (\<lambda>i t e. \<Sum>j<h. \<Sum>m<d. elem x i t j m * w j m e)\<rparr>)"

text \<open>
  Modelled from the spec: \<^verbatim>\<open>models.LLaMARotaryEmbedding\<close> (layers/models.py is not part of
  the sources). For an even \<^verbatim>\<open>head_dim\<close> each pair \<^verbatim>\<open>(x[2i], x[2i+1])\<close> is rotated by the
  angle \<^verbatim>\<open>position * base^(-2i/head_dim)\<close>; an odd \<^verbatim>\<open>head_dim\<close> is a configuration
  error; absent positions are \<^verbatim>\<open>0..length-1\<close>.
\<close>

definition LLaMARotaryEmbedding ::
  "real \<Rightarrow> real array4 \<Rightarrow> (nat \<Rightarrow> nat \<Rightarrow> int) option \<Rightarrow> error + real array4" where
  "LLaMARotaryEmbedding base x position =
     (case shape x of (b, l, h, d) \<Rightarrow>
        if odd d then Inl ConfigurationError
        else Inr \<lparr>shape = shape x,
                  elem = (\<lambda>i t j m.
                    let p = (case position of None \<Rightarrow> real t | Some pos \<Rightarrow> real_of_int (pos i t));
                        \<theta> = p * base powr (- (2 * real (m div 2)) / real d)
                    in if even m then elem x i t j m * cos \<theta> - elem x i t j (m + 1) * sin \<theta>
                       else elem x i t j (m - 1) * sin \<theta> + elem x i t j m * cos \<theta>)\<rparr>)"

text \<open>
  Lines 109 to 115: \<^verbatim>\<open>query_init\<close>, the kernel initializer of the query projection, is
  the module's \<^verbatim>\<open>kernel_init\<close> divided by \<^verbatim>\<open>depth_scaling = sqrt(head_dim)\<close>.
\<close>

definition depth_scaling :: "nat \<Rightarrow> real" where
  "depth_scaling dh = sqrt (real dh)"

definition query_init :: "('args \<Rightarrow> nat \<Rightarrow> nat \<Rightarrow> nat \<Rightarrow> real) \<Rightarrow> nat \<Rightarrow> 'args \<Rightarrow> nat \<Rightarrow> nat \<Rightarrow> nat \<Rightarrow> real" where
  "query_init kernel_init dh args = (\<lambda>e j m. kernel_init args e j m / depth_scaling dh)"

text \<open>
  Lines 119 to 121 and 246 to 254 at initialization: the kernel of each projection is
  what the initializer passed to it returns on that projection's arguments.
\<close>

definition init_kernels ::
  "('args \<Rightarrow> nat \<Rightarrow> nat \<Rightarrow> nat \<Rightarrow> real) \<Rightarrow> 'args \<Rightarrow> 'args \<Rightarrow> 'args \<Rightarrow> 'args \<Rightarrow>
   attention_module \<Rightarrow> attention_module" where
  "init_kernels kernel_init aq ak av ao md =
     md\<lparr>query_kernel := query_init kernel_init (head_dim md) aq,
        key_kernel := kernel_init ak,
        value_kernel := kernel_init av,
        out_kernel := kernel_init ao\<rparr>"

text \<open>
  Lines 99 to 255: the call of the attention module. Partitioning constraints and
  checkpoint names are hints and leave the arrays as they are.
\<close>

definition MultiHeadDotProductAttention_call ::
  "attention_module \<Rightarrow> cache \<Rightarrow> real array3 \<Rightarrow> real array3 \<Rightarrow> (nat \<Rightarrow> nat \<Rightarrow> int) option \<Rightarrow>
   bool array4 option \<Rightarrow> real array4 option \<Rightarrow> bool \<Rightarrow> bool \<Rightarrow> prng_key option \<Rightarrow>
   error + (cache \<times> real array3)" where
  "MultiHeadDotProductAttention_call md c inputs_q inputs_kv inputs_positions msk bias
       decode deterministic rngs =
     (let query = projection (query_kernel md) (num_heads md) (head_dim md) inputs_q;
          key = projection (key_kernel md) (num_heads md) (head_dim md) inputs_kv;
          val = projection (value_kernel md) (num_heads md) (head_dim md) inputs_kv
      in (case LLaMARotaryEmbedding (rope_base md) query inputs_positions of Inl e \<Rightarrow> Inl e
          | Inr query' \<Rightarrow>
         (case LLaMARotaryEmbedding (rope_base md) key inputs_positions of Inl e \<Rightarrow> Inl e
          | Inr key' \<Rightarrow>
         (case attention_core md c query' key' val msk bias decode deterministic rngs of
            Inl e \<Rightarrow> Inl e
          | Inr (c', x) \<Rightarrow>
              Inr (c', out_projection (out_kernel md) (snd (snd (shape3 inputs_q))) x)))))"

section \<open>The decoder layer\<close>

text \<open>
  Lines 340 to 440. The sub-modules of the layer (the two normalizations, the attention
  module with the arguments it is called on, the feed-forward block, the dropout and the
  statistics that are recorded) are parameters; \<^verbatim>\<open>'t\<close> is the type of the activations.
\<close>

record ('t, 'm) decoder_layer =
  pre_self_attention_norm :: "'t \<Rightarrow> 't"
  self_attention :: "cache \<Rightarrow> 't \<Rightarrow> 't \<Rightarrow> bool \<Rightarrow> bool \<Rightarrow> error + (cache \<times> 't)"
  post_self_attention_layer_norm :: "'t \<Rightarrow> 't"
  mlp :: "'t \<Rightarrow> bool \<Rightarrow> 't"
  layer_dropout :: "'t \<Rightarrow> bool \<Rightarrow> 't"
  activation_metrics :: "'t \<Rightarrow> 'm"
  record_internal_nn_metrics :: bool
  scan_layers :: bool

datatype 't layer_return = WithCarry 't | Output 't

definition DecoderLayer_call ::
  "('t::plus, 'm) decoder_layer \<Rightarrow> cache \<Rightarrow> 't \<Rightarrow> bool \<Rightarrow> bool \<Rightarrow>
   error + (cache \<times> 't layer_return \<times> 'm option)" where
  "DecoderLayer_call layer c inputs deterministic decode =
     (let residual = inputs;
          lnx = pre_self_attention_norm layer inputs
      in (case self_attention layer c lnx lnx deterministic decode of Inl e \<Rightarrow> Inl e
          | Inr (c', attention_lnx) \<Rightarrow>
            (let hidden_states = residual + attention_lnx;
                 residual = hidden_states;
                 hidden_states = post_self_attention_layer_norm layer hidden_states;
                 hidden_states = lnx;
                 mlp_lnx = mlp layer hidden_states deterministic;
                 layer_output = mlp_lnx + residual;
                 layer_output = layer_dropout layer layer_output deterministic;
                 sown = (if record_internal_nn_metrics layer
                         then Some (activation_metrics layer layer_output) else None)
             in if scan_layers layer then Inr (c', WithCarry layer_output, sown)
                else if scan_layers layer then Inr (c', WithCarry layer_output, sown)
                else Inr (c', Output layer_output, sown))))"

text \<open>
  The layer as the specification words it: the feed-forward block receives the output
  of the post-attention normalization of the attention-plus-residual tensor.
\<close>

definition DecoderLayer_spec ::
  "('t::plus, 'm) decoder_layer \<Rightarrow> cache \<Rightarrow> 't \<Rightarrow> bool \<Rightarrow> bool \<Rightarrow>
   error + (cache \<times> 't layer_return \<times> 'm option)" where
  "DecoderLayer_spec layer c inputs deterministic decode =
     (let lnx = pre_self_attention_norm layer inputs
      in (case self_attention layer c lnx lnx deterministic decode of Inl e \<Rightarrow> Inl e
          | Inr (c', attention_lnx) \<Rightarrow>
            (let residual = inputs + attention_lnx;
                 normalized = post_self_attention_layer_norm layer residual;
                 layer_output = layer_dropout layer (mlp layer normalized deterministic + residual)
                                  deterministic;
                 sown = (if record_internal_nn_metrics layer
                         then Some (activation_metrics layer layer_output) else None)
             in Inr (c', if scan_layers layer then WithCarry layer_output else Output layer_output,
                     sown))))"

section \<open>Example data\<close>

text \<open>
  The concrete scenario of the specification: batch 1, one head, head dimension 2 and
  four cache slots; a token is the same vector as query, key and value of its step.
\<close>

definition example_module :: attention_module where
  "example_module =
     \<lparr>num_heads = 1, head_dim = 2, dropout_rate = 0,
      query_kernel = (\<lambda>e j m. 1), key_kernel = (\<lambda>e j m. 1), value_kernel = (\<lambda>e j m. 1),
      out_kernel = (\<lambda>j m e. 1), rope_base = 10000,
      bernoulli = (\<lambda>k p s i j q m. True), dtype = (\<lambda>x. x), rng_fold = (\<lambda>k. k)\<rparr>"

definition token :: "real \<Rightarrow> real \<Rightarrow> real array4" where
  "token a b = \<lparr>shape = (1, 1, 1, 2), elem = (\<lambda>i t j m. if m = 0 then a else b)\<rparr>"

definition example_step :: "real \<Rightarrow> real \<Rightarrow> decode_inputs" where
  "example_step a b = (token a b, token a b, token a b, None, None)"

definition example_prime :: decode_inputs where
  "example_prime = (zeros (1, 4, 1, 2), zeros (1, 4, 1, 2), zeros (1, 4, 1, 2), None, None)"

definition example_cache :: cache where
  "example_cache = \<lparr>cached_key = Some (zeros (1, 1, 2, 4)), cached_value = Some (zeros (1, 1, 2, 4)),
                     cache_index = Some 0\<rparr>"

definition full_cache :: cache where
  "full_cache = \<lparr>cached_key = Some (zeros (1, 1, 2, 4)), cached_value = Some (zeros (1, 1, 2, 4)),
                  cache_index = Some 4\<rparr>"


section \<open>Observations of a session\<close>

text \<open>
  What a session leaves behind: the value of \<^verbatim>\<open>cache_index\<close> and the capacity
  \<^verbatim>\<open>max_length\<close>, the last axis of \<^verbatim>\<open>cached_key\<close>. The invariant of the specification
  is \<^verbatim>\<open>0 <= cache_index < max_length\<close>.
\<close>

definition index_after :: "error + cache \<Rightarrow> int option" where
  "index_after r = (case r of Inl e \<Rightarrow> None | Inr c \<Rightarrow> map_option sint (cache_index c))"

definition max_length_after :: "error + cache \<Rightarrow> nat option" where
  "max_length_after r =
     (case r of Inl e \<Rightarrow> None
      | Inr c \<Rightarrow> (case cached_key c of None \<Rightarrow> None
                  | Some ck \<Rightarrow> (case shape ck of (b, h, d, l) \<Rightarrow> Some l)))"

definition index_in_range :: "error + cache \<Rightarrow> bool" where
  "index_in_range r =
     (case (index_after r, max_length_after r) of
        (Some i, Some l) \<Rightarrow> 0 \<le> i \<and> i < int l
      | _ \<Rightarrow> False)"


text \<open>
  The static slice \<^verbatim>\<open>bias[..., t:t+1, :]\<close> of a bias, for a row \<open>t\<close> inside the bias.
\<close>

definition bias_row :: "'a array4 \<Rightarrow> nat \<Rightarrow> 'a array4" where
  "bias_row a t = (case shape a of (n0, n1, nq, nk) \<Rightarrow>
     \<lparr>shape = (n0, n1, 1, nk), elem = (\<lambda>i h r k. elem a i h (t + r) k)\<rparr>)"

text \<open>A bias over four query and four key positions for the example cache.\<close>

definition example_bias :: "real array4" where
  "example_bias = \<lparr>shape = (1, 1, 4, 4), elem = (\<lambda>i h r n. real (4 * r + n))\<rparr>"

text \<open>Inputs of a priming call: batch 1, three positions, five features.\<close>

definition example_inputs :: "real array3" where
  "example_inputs = \<lparr>shape3 = (1, 3, 5), elem3 = (\<lambda>i t e. real (t + e))\<rparr>"

section \<open>Logits at initialization\<close>

text \<open>
  The logits of a call without mask and bias whose query projection has the kernel
  \<^verbatim>\<open>w\<close>, and a result with every logit divided by \<^verbatim>\<open>s\<close>.
\<close>

definition query_logits ::
  "attention_module \<Rightarrow> (nat \<Rightarrow> nat \<Rightarrow> nat \<Rightarrow> real) \<Rightarrow> real array3 \<Rightarrow> (nat \<Rightarrow> nat \<Rightarrow> int) option \<Rightarrow>
   real array4 \<Rightarrow> error + real array4" where
  "query_logits md w inputs_q positions key =
     (case LLaMARotaryEmbedding (rope_base md)
             (projection w (num_heads md) (head_dim md) inputs_q) positions of
        Inl e \<Rightarrow> Inl e
      | Inr query \<Rightarrow> attention_logits query key None)"

definition divide_logits :: "real \<Rightarrow> error + real array4 \<Rightarrow> error + real array4" where
  "divide_logits s r =
     (case r of Inl e \<Rightarrow> Inl e
      | Inr x \<Rightarrow> Inr \<lparr>shape = shape x, elem = (\<lambda>i j q k. elem x i j q k / s)\<rparr>)"

text \<open>An initializer that fills a kernel with the number it is given.\<close>

definition example_init :: "nat \<Rightarrow> nat \<Rightarrow> nat \<Rightarrow> nat \<Rightarrow> real" where
  "example_init args = (\<lambda>e j m. real args)"

text \<open>
  A decoder layer on scalar activations: the first normalization doubles, the second
  triples, attention and feed-forward block return their input.
\<close>

definition example_layer :: "(real, real) decoder_layer" where
  "example_layer =
     \<lparr>pre_self_attention_norm = (\<lambda>x. 2 * x),
      self_attention = (\<lambda>c q kv deterministic decode. Inr (c, q)),
      post_self_attention_layer_norm = (\<lambda>x. 3 * x),
      mlp = (\<lambda>x deterministic. x),
      layer_dropout = (\<lambda>x deterministic. x),
      activation_metrics = (\<lambda>x. x),
      record_internal_nn_metrics = False,
      scan_layers = False\<rparr>"

section \<open>Broadcasting and the one-hot update\<close>

lemma bidx_id: "i < n \<Longrightarrow> bidx n i = i"
  by (auto simp: bidx_def)

lemma contents_eqI:
  assumes "shape x = (n1, n2, n3, n4)" and "shape y = (n1, n2, n3, n4)"
    and "\<And>i j k m. i < n1 \<Longrightarrow> j < n2 \<Longrightarrow> k < n3 \<Longrightarrow> m < n4 \<Longrightarrow> elem x i j k m = elem y i j k m"
  shows "contents x = contents y"
  using assms by (simp add: contents_def tabulate4_def)

lemma broadcast_dim_same: "broadcast_dim n n = Some n"
  by (simp add: broadcast_dim_def)

lemma broadcast_dim_1r: "broadcast_dim n (Suc 0) = Some n"
  by (simp add: broadcast_dim_def)

lemma broadcast_dim_1l: "broadcast_dim (Suc 0) n = Some n"
  by (auto simp: broadcast_dim_def)

lemma broadcast_shapes_same: "broadcast_shapes s s = Some s"
  by (cases s) (simp add: broadcast_shapes_def broadcast_dim_same)

lemma broadcast_shapes_one_hot:
  "broadcast_shapes (b, h, d, Suc 0) (Suc 0, Suc 0, Suc 0, l) = Some (b, h, d, l)"
  by (simp add: broadcast_shapes_def broadcast_dim_1r broadcast_dim_1l)

lemma scatter_shape: "shape (scatter c ci x) = shape c"
  by (cases "shape c") (simp add: scatter_def Let_def)

lemma broadcast2_scatter:
  assumes "shape c = (b, h, d, l)" "shape x = (b, 1, h, d)"
  shows "(case broadcast2 (*) (moveaxis_m3_m1 x) (one_hot ci l) of Inl e \<Rightarrow> Inl e
          | Inr p \<Rightarrow> broadcast2 (+) c p) = Inr (scatter c ci x)"
  using assms
  by (simp add: broadcast2_def moveaxis_m3_m1_def one_hot_def broadcast_shapes_one_hot
      broadcast_shapes_same scatter_def)

lemma scatter_elem:
  assumes "shape c = (b, h, d, l)" "shape x = (b, 1, h, d)"
    and "i < b" "j < h" "k < d" "m < l"
  shows "elem (scatter c ci x) i j k m =
         elem c i j k m + elem x i 0 j k * (if int m = sint ci then 1 else 0)"
  using assms
  by (simp add: scatter_def broadcast_at_def moveaxis_m3_m1_def one_hot_def bidx_id)
    (simp add: bidx_def)

lemma cache_update_conforming:
  assumes "shape ck = (b, h, d, l)" "shape cv = (b, h, d, l)"
    and "shape key = (b, 1, h, d)" "shape val = (b, 1, h, d)"
  shows "cache_update ck cv ci key val =
         Inr (\<lparr>cached_key = Some (scatter ck ci key), cached_value = Some (scatter cv ci val),
                cache_index = Some (ci + 1)\<rparr>,
              ci, moveaxis_m1_m3 (scatter ck ci key), moveaxis_m1_m3 (scatter cv ci val))"
proof -
  note k = broadcast2_scatter [OF assms(1) assms(3), of ci]
  note v = broadcast2_scatter [OF assms(2) assms(4), of ci]
  show ?thesis
    using k v unfolding cache_update_def Let_def assms(1)
    by (auto split: sum.splits)
qed



lemma broadcast_dim_fit_iff: "broadcast_dim a t = Some t \<longleftrightarrow> a = t \<or> a = Suc 0"
  by (auto simp: broadcast_dim_def)

lemma broadcast_dim_Some_iff:
  "broadcast_dim a b = Some c \<longleftrightarrow> (a = b \<and> c = a) \<or> (a = Suc 0 \<and> c = b) \<or> (b = Suc 0 \<and> c = a)"
  by (auto simp: broadcast_dim_def)

lemma broadcast_shapes_Some_iff:
  "broadcast_shapes (a1, a2, a3, a4) (b1, b2, b3, b4) = Some (c1, c2, c3, c4) \<longleftrightarrow>
     broadcast_dim a1 b1 = Some c1 \<and> broadcast_dim a2 b2 = Some c2 \<and>
     broadcast_dim a3 b3 = Some c3 \<and> broadcast_dim a4 b4 = Some c4"
  by (simp add: broadcast_shapes_def split: option.splits)

lemma fits_iff:
  "fits (a1, a2, a3, a4) (t1, t2, t3, t4) \<longleftrightarrow>
     (a1 = t1 \<or> a1 = Suc 0) \<and> (a2 = t2 \<or> a2 = Suc 0) \<and> (a3 = t3 \<or> a3 = Suc 0) \<and> (a4 = t4 \<or> a4 = Suc 0)"
  by (simp add: fits_def broadcast_shapes_Some_iff broadcast_dim_fit_iff)

lemma fits_join:
  assumes "fits s t" "fits s' t"
  shows "\<exists>u. broadcast_shapes s s' = Some u \<and> fits u t"
proof -
  obtain a1 a2 a3 a4 where s: "s = (a1, a2, a3, a4)" by (cases s) auto
  obtain b1 b2 b3 b4 where s': "s' = (b1, b2, b3, b4)" by (cases s') auto
  obtain t1 t2 t3 t4 where t: "t = (t1, t2, t3, t4)" by (cases t) auto
  have d: "\<And>a b t. a = t \<or> a = Suc 0 \<Longrightarrow> b = t \<or> b = Suc 0 \<Longrightarrow>
      \<exists>u. broadcast_dim a b = Some u \<and> (u = t \<or> u = Suc 0)"
    by (auto simp: broadcast_dim_def)
  from assms have f: "a1 = t1 \<or> a1 = Suc 0" "a2 = t2 \<or> a2 = Suc 0" "a3 = t3 \<or> a3 = Suc 0"
    "a4 = t4 \<or> a4 = Suc 0" "b1 = t1 \<or> b1 = Suc 0" "b2 = t2 \<or> b2 = Suc 0" "b3 = t3 \<or> b3 = Suc 0"
    "b4 = t4 \<or> b4 = Suc 0"
    by (simp_all add: s s' t fits_iff)
  obtain u1 where u1: "broadcast_dim a1 b1 = Some u1" "u1 = t1 \<or> u1 = Suc 0" using d [OF f(1) f(5)] by blast
  obtain u2 where u2: "broadcast_dim a2 b2 = Some u2" "u2 = t2 \<or> u2 = Suc 0" using d [OF f(2) f(6)] by blast
  obtain u3 where u3: "broadcast_dim a3 b3 = Some u3" "u3 = t3 \<or> u3 = Suc 0" using d [OF f(3) f(7)] by blast
  obtain u4 where u4: "broadcast_dim a4 b4 = Some u4" "u4 = t4 \<or> u4 = Suc 0" using d [OF f(4) f(8)] by blast
  have "broadcast_shapes s s' = Some (u1, u2, u3, u4)"
    by (simp add: s s' broadcast_shapes_def u1 u2 u3 u4)
  moreover have "fits (u1, u2, u3, u4) t"
    using u1 u2 u3 u4 by (simp add: t fits_iff)
  ultimately show ?thesis by blast
qed

lemma fits_commute:
  assumes "fits s t"
  shows "broadcast_shapes t s = Some t"
proof -
  obtain a1 a2 a3 a4 where s: "s = (a1, a2, a3, a4)" by (cases s) auto
  obtain t1 t2 t3 t4 where t: "t = (t1, t2, t3, t4)" by (cases t) auto
  have d: "\<And>a t. a = t \<or> a = Suc 0 \<Longrightarrow> broadcast_dim t a = Some t"
    by (auto simp: broadcast_dim_def)
  from assms show ?thesis
    by (simp add: s t fits_iff broadcast_shapes_Some_iff d)
qed


lemma causal_fits: "fits (b, Suc 0, Suc 0, l) (b, h, Suc 0, l)"
  by (simp add: fits_iff)

lemma combine_masks_causal:
  assumes "case m of None \<Rightarrow> True | Some a \<Rightarrow> fits (shape a) (b, h, 1, l)"
  shows "\<exists>mk. combine_masks m (Some (causal_mask b l ci)) = Inr (Some mk) \<and>
           fits (shape mk) (b, h, 1, l) \<and>
           (\<forall>i j q k. k < l \<longrightarrow> elem mk i j q k \<longrightarrow> int k \<le> sint ci)"
proof (cases m)
  case None
  then show ?thesis
    by (simp add: combine_masks_def causal_mask_def causal_fits)
next
  case (Some a)
  with assms have fa: "fits (shape a) (b, h, 1, l)" by simp
  have fc: "fits (shape (causal_mask b l ci)) (b, h, 1, l)"
    by (simp add: causal_mask_def causal_fits)
  from fits_join [OF fa fc] obtain u where
    u: "broadcast_shapes (shape a) (shape (causal_mask b l ci)) = Some u" "fits u (b, h, 1, l)"
    by blast
  show ?thesis
    using u
    by (simp add: combine_masks_def Some broadcast2_def)
      (simp add: broadcast_at_def causal_mask_def bidx_id)
qed

lemma decode_bias_ok:
  assumes "shape a = (1, n1, nq, nk)" "1 \<le> nq"
  shows "decode_bias (Some a) ci =
         Inr (Some \<lparr>shape = (1, n1, 1, nk),
                    elem = (\<lambda>_ h _ k. elem a 0 h (slice_start ci nq 1) k)\<rparr>)"
  using assms by (simp add: decode_bias_def squeeze0_def dynamic_vector_slice_in_dim_def)

lemma decode_bias_None: "decode_bias None ci = Inr None"
  by (simp add: decode_bias_def)

lemma compose_bias_fits:
  assumes "case mk of None \<Rightarrow> True | Some a \<Rightarrow> fits (shape a) t"
    and "case br of None \<Rightarrow> True | Some a \<Rightarrow> fits (shape a) t"
  shows "\<exists>ab. compose_bias astype mk br = Inr ab \<and>
           (case ab of None \<Rightarrow> True | Some a \<Rightarrow> fits (shape a) t)"
proof (cases br)
  case None
  then show ?thesis using assms(1)
    by (cases mk) (simp_all add: compose_bias_def mask_to_bias_def)
next
  case (Some b)
  with assms have fb: "fits (shape b) t" by simp
  show ?thesis
  proof (cases mk)
    case None
    then show ?thesis using fb Some
      by (simp add: compose_bias_def mask_to_bias_def combine_biases_def)
  next
    case (Some a)
    with assms have fa: "fits (shape a) t" by simp
    from fits_join [OF fa fb] obtain u where
      u: "broadcast_shapes (shape a) (shape b) = Some u" "fits u t" by blast
    show ?thesis
      using u \<open>br = Some b\<close> Some
      by (simp add: compose_bias_def mask_to_bias_def combine_biases_def broadcast2_def)
  qed
qed

lemma attention_logits_ok:
  assumes "shape q = (b, lq, h, d)" "shape key = (b, lk, h, d)"
    and "case bias of None \<Rightarrow> True | Some a \<Rightarrow> fits (shape a) (b, h, lq, lk)"
  shows "\<exists>lg. attention_logits q key bias = Inr lg \<and> shape lg = (b, h, lq, lk)"
proof (cases bias)
  case None
  then show ?thesis using assms by (simp add: attention_logits_def)
next
  case (Some a)
  with assms have f: "fits (shape a) (b, h, lq, lk)" by simp
  then have "broadcast_shapes (b, h, lq, lk) (shape a) = Some (b, h, lq, lk)"
    by (rule fits_commute)
  then show ?thesis using assms(1,2) Some f
    by (simp add: attention_logits_def broadcast2_def)
qed

lemma softmax_shape: "shape (softmax x) = shape x"
  by (cases "shape x") (simp add: softmax_def)

lemma dropout_shape: "shape (dropout md k x) = shape x"
  by (simp add: dropout_def Let_def)

lemma attention_weights_ok:
  assumes "shape q = (b, lq, h, d)" "shape key = (b, lk, h, d)"
    and "case bias of None \<Rightarrow> True | Some a \<Rightarrow> fits (shape a) (b, h, lq, lk)"
  shows "\<exists>w. attention_weights md q key bias rng = Inr w \<and> shape w = (b, h, lq, lk)"
proof -
  from attention_logits_ok [OF assms] obtain lg where
    "attention_logits q key bias = Inr lg" "shape lg = (b, h, lq, lk)" by blast
  then show ?thesis
    by (cases rng) (simp_all add: attention_weights_def softmax_shape dropout_shape)
qed

lemma apply_attention_ok:
  assumes "shape q = (b, lq, h, d)" "shape key = (b, lk, h, d)" "shape val = (b, lk, h, dv)"
    and "case bias of None \<Rightarrow> True | Some a \<Rightarrow> fits (shape a) (b, h, lq, lk)"
  shows "\<exists>x. apply_attention md q key val bias rng = Inr x \<and> shape x = (b, lq, h, dv)"
proof -
  from attention_weights_ok [OF assms(1,2,4)] obtain w where
    "attention_weights md q key bias rng = Inr w" "shape w = (b, h, lq, lk)" by blast
  then show ?thesis using assms(3)
    by (simp add: apply_attention_def)
qed


lemma moveaxis_m1_m3_shape: "shape x = (b, h, d, l) \<Longrightarrow> shape (moveaxis_m1_m3 x) = (b, l, h, d)"
  by (simp add: moveaxis_m1_m3_def)

lemma decode_branch_ok:
  assumes c: "cached_key c = Some ck" "cached_value c = Some cv" "cache_index c = Some ci"
    and sh: "shape ck = (b, h, d, l)" "shape cv = (b, h, d, l)"
    and st: "single_token_call md det rngs (b, h, d, l) (q, k, v, m, bi)"
  shows "\<exists>mk br. decode_branch c q k v m bi =
           Inr (\<lparr>cached_key = Some (scatter ck ci k), cached_value = Some (scatter cv ci v),
                  cache_index = Some (ci + 1)\<rparr>,
                moveaxis_m1_m3 (scatter ck ci k), moveaxis_m1_m3 (scatter cv ci v), Some mk, br) \<and>
           fits (shape mk) (b, h, 1, l) \<and>
           (\<forall>i j r n. n < l \<longrightarrow> elem mk i j r n \<longrightarrow> int n \<le> sint ci) \<and>
           (case br of None \<Rightarrow> True | Some a \<Rightarrow> fits (shape a) (b, h, 1, l))"
proof -
  from st have q: "shape q = (b, 1, h, d)" and k: "shape k = (b, 1, h, d)"
    and v: "shape v = (b, 1, h, d)"
    and m: "case m of None \<Rightarrow> True | Some a \<Rightarrow> fits (shape a) (b, h, 1, l)"
    by (simp_all add: single_token_call_def)
  from combine_masks_causal [OF m, of ci] obtain mk where
    mk: "combine_masks m (Some (causal_mask b l ci)) = Inr (Some mk)"
      "fits (shape mk) (b, h, 1, l)"
      "\<forall>i j r n. n < l \<longrightarrow> elem mk i j r n \<longrightarrow> int n \<le> sint ci"
    by blast
  have "\<exists>br. decode_bias bi ci = Inr br \<and>
          (case br of None \<Rightarrow> True | Some a \<Rightarrow> fits (shape a) (b, h, 1, l))"
  proof (cases bi)
    case None
    then show ?thesis by (simp add: decode_bias_None)
  next
    case (Some a)
    obtain n0 n1 nq nk where a: "shape a = (n0, n1, nq, nk)" by (cases "shape a") auto
    from st Some a have "n0 = 1" "1 \<le> nq" "fits (1, n1, 1, nk) (b, h, 1, l)"
      by (simp_all add: single_token_call_def)
    then show ?thesis
      using decode_bias_ok [of a n1 nq nk ci] a Some by simp
  qed
  then obtain br where br: "decode_bias bi ci = Inr br"
    "case br of None \<Rightarrow> True | Some a \<Rightarrow> fits (shape a) (b, h, 1, l)" by blast
  have "decode_branch c q k v m bi =
           Inr (\<lparr>cached_key = Some (scatter ck ci k), cached_value = Some (scatter cv ci v),
                  cache_index = Some (ci + 1)\<rparr>,
                moveaxis_m1_m3 (scatter ck ci k), moveaxis_m1_m3 (scatter cv ci v), Some mk, br)"
    using c sh q mk(1) br(1) cache_update_conforming [OF sh k v, of ci]
    by (simp add: decode_branch_def has_cached_key_def variable_def expected_shape_def)
  with mk br show ?thesis by blast
qed

lemma dropout_rng_ok:
  assumes "det \<or> rate \<le> 0 \<or> rngs \<noteq> None"
  shows "\<exists>r. dropout_rng derive det rate rngs = Inr r"
  using assms by (cases rngs) (auto simp: dropout_rng_def make_rng_def)

lemma decode_call_ok:
  assumes c: "cached_key c = Some ck" "cached_value c = Some cv" "cache_index c = Some ci"
    and sh: "shape ck = (b, h, d, l)" "shape cv = (b, h, d, l)"
    and st: "single_token_call md det rngs (b, h, d, l) (q, k, v, m, bi)"
  shows "\<exists>out. attention_core md c q k v m bi True det rngs =
           Inr (\<lparr>cached_key = Some (scatter ck ci k), cached_value = Some (scatter cv ci v),
                  cache_index = Some (ci + 1)\<rparr>, out) \<and> shape out = (b, 1, h, d)"
proof -
  from decode_branch_ok [OF c sh st] obtain mk br where
    db: "decode_branch c q k v m bi =
           Inr (\<lparr>cached_key = Some (scatter ck ci k), cached_value = Some (scatter cv ci v),
                  cache_index = Some (ci + 1)\<rparr>,
                moveaxis_m1_m3 (scatter ck ci k), moveaxis_m1_m3 (scatter cv ci v), Some mk, br)"
    and mk: "fits (shape mk) (b, h, 1, l)"
    and br: "case br of None \<Rightarrow> True | Some a \<Rightarrow> fits (shape a) (b, h, 1, l)"
    by blast
  from st have q: "shape q = (b, 1, h, d)" and rn: "det \<or> dropout_rate md \<le> 0 \<or> rngs \<noteq> None"
    by (simp_all add: single_token_call_def)
  from compose_bias_fits [where mk = "Some mk" and t = "(b, h, 1, l)" and br = br
      and astype = "dtype md"] mk br obtain ab where
    ab: "compose_bias (dtype md) (Some mk) br = Inr ab"
      "case ab of None \<Rightarrow> True | Some a \<Rightarrow> fits (shape a) (b, h, 1, l)" by auto
  from dropout_rng_ok [OF rn] obtain r where r: "dropout_rng (rng_fold md) det (dropout_rate md) rngs = Inr r"
    by blast
  have ks: "shape (moveaxis_m1_m3 (scatter ck ci k)) = (b, l, h, d)"
    by (simp add: moveaxis_m1_m3_shape scatter_shape sh)
  have vs: "shape (moveaxis_m1_m3 (scatter cv ci v)) = (b, l, h, d)"
    by (simp add: moveaxis_m1_m3_shape scatter_shape sh)
  from apply_attention_ok [OF q ks vs ab(2), of md r] obtain x where
    x: "apply_attention md q (moveaxis_m1_m3 (scatter ck ci k)) (moveaxis_m1_m3 (scatter cv ci v)) ab r = Inr x"
      "shape x = (b, 1, h, d)" by blast
  show ?thesis
    using db ab(1) r x
    by (simp add: attention_core_def attention_arguments_def)
qed


lemma sint_succ:
  fixes ci :: "32 word"
  assumes "sint ci = int n" "n + 1 < 2 ^ 31"
  shows "sint (ci + 1) = int (n + 1)"
proof -
  have "sint (ci + 1) = signed_take_bit 31 (sint ci + sint (1 :: 32 word))"
    by (simp add: sint_word_add)
  also have "\<dots> = signed_take_bit 31 (int n + 1)"
    by (simp add: assms(1))
  also have "\<dots> = int n + 1"
    using assms(2) by (intro signed_take_bit_int_eq_self) auto
  finally show ?thesis by simp
qed

section \<open>Sequential decoding\<close>

lemma decode_calls_inv:
  assumes "\<forall>x \<in> set xs. single_token_call md det rngs (b, h, d, l) x"
    and "cached_key c = Some ck" "cached_value c = Some cv" "cache_index c = Some ci"
    and "shape ck = (b, h, d, l)" "shape cv = (b, h, d, l)"
    and "sint ci = int n" "n + length xs < 2 ^ 31"
    and "\<forall>i<b. \<forall>j<h. \<forall>k<d. \<forall>m<l. n \<le> m \<longrightarrow> elem ck i j k m = 0"
  shows "\<exists>c' ck' cv' ci'. decode_calls md det rngs c xs = Inr c' \<and>
           cached_key c' = Some ck' \<and> cached_value c' = Some cv' \<and> cache_index c' = Some ci' \<and>
           shape ck' = (b, h, d, l) \<and> shape cv' = (b, h, d, l) \<and>
           sint ci' = int (n + length xs) \<and>
           (\<forall>i<b. \<forall>j<h. \<forall>k<d. \<forall>m<l. elem ck' i j k m =
              (if m < n then elem ck i j k m
               else if m < n + length xs then elem (step_key (xs ! (m - n))) i 0 j k
               else 0))"
  using assms
proof (induction xs arbitrary: c ck cv ci n)
  case Nil
  then show ?case by simp
next
  case (Cons x xs)
  obtain q ky v m bi where x: "x = (q, ky, v, m, bi)" by (cases x) auto
  from Cons.prems(1) have st: "single_token_call md det rngs (b, h, d, l) (q, ky, v, m, bi)"
    and rest: "\<forall>y \<in> set xs. single_token_call md det rngs (b, h, d, l) y"
    by (simp_all add: x)
  from st have ks: "shape ky = (b, 1, h, d)" by (simp add: single_token_call_def)
  let ?c1 = "\<lparr>cached_key = Some (scatter ck ci ky), cached_value = Some (scatter cv ci v),
               cache_index = Some (ci + 1)\<rparr>"
  from decode_call_ok [OF Cons.prems(2,3,4,5,6) st] obtain out where
    call: "attention_core md c q ky v m bi True det rngs = Inr (?c1, out)" by blast
  have idx: "sint (ci + 1) = int (Suc n)"
    using sint_succ [OF Cons.prems(7)] Cons.prems(8) by simp
  have el: "elem (scatter ck ci ky) i j k m' =
              elem ck i j k m' + elem ky i 0 j k * (if m' = n then 1 else 0)"
    if "i < b" "j < h" "k < d" "m' < l" for i j k m'
    using scatter_elem [OF Cons.prems(5) ks that, of ci] Cons.prems(7) by simp
  have zero: "\<forall>i<b. \<forall>j<h. \<forall>k<d. \<forall>m<l. Suc n \<le> m \<longrightarrow> elem (scatter ck ci ky) i j k m = 0"
    using el Cons.prems(9) by simp
  have "\<exists>c' ck' cv' ci'. decode_calls md det rngs ?c1 xs = Inr c' \<and>
           cached_key c' = Some ck' \<and> cached_value c' = Some cv' \<and> cache_index c' = Some ci' \<and>
           shape ck' = (b, h, d, l) \<and> shape cv' = (b, h, d, l) \<and>
           sint ci' = int (Suc n + length xs) \<and>
           (\<forall>i<b. \<forall>j<h. \<forall>k<d. \<forall>m<l. elem ck' i j k m =
              (if m < Suc n then elem (scatter ck ci ky) i j k m
               else if m < Suc n + length xs then elem (step_key (xs ! (m - Suc n))) i 0 j k
               else 0))"
  proof (rule Cons.IH [OF rest _ _ _ _ _ idx _ zero])
    show "cached_key ?c1 = Some (scatter ck ci ky)" by simp
    show "cached_value ?c1 = Some (scatter cv ci v)" by simp
    show "cache_index ?c1 = Some (ci + 1)" by simp
    show "shape (scatter ck ci ky) = (b, h, d, l)" by (simp add: scatter_shape Cons.prems(5))
    show "shape (scatter cv ci v) = (b, h, d, l)" by (simp add: scatter_shape Cons.prems(6))
    show "Suc n + length xs < 2 ^ 31" using Cons.prems(8) by simp
  qed
  then obtain c' ck' cv' ci' where r:
    "decode_calls md det rngs ?c1 xs = Inr c'"
    "cached_key c' = Some ck'" "cached_value c' = Some cv'" "cache_index c' = Some ci'"
    "shape ck' = (b, h, d, l)" "shape cv' = (b, h, d, l)"
    "sint ci' = int (Suc n + length xs)"
    "\<forall>i<b. \<forall>j<h. \<forall>k<d. \<forall>m<l. elem ck' i j k m =
              (if m < Suc n then elem (scatter ck ci ky) i j k m
               else if m < Suc n + length xs then elem (step_key (xs ! (m - Suc n))) i 0 j k
               else 0)"
    by blast
  have run: "decode_calls md det rngs c (x # xs) = Inr c'"
    using call r(1) by (simp add: x)
  have els: "elem ck' i j k m' =
              (if m' < n then elem ck i j k m'
               else if m' < n + length (x # xs) then elem (step_key ((x # xs) ! (m' - n))) i 0 j k
               else 0)"
    if "i < b" "j < h" "k < d" "m' < l" for i j k m'
  proof -
    have e: "elem ck' i j k m' =
              (if m' < Suc n then elem (scatter ck ci ky) i j k m'
               else if m' < Suc n + length xs then elem (step_key (xs ! (m' - Suc n))) i 0 j k
               else 0)"
      using r(8) that by blast
    consider "m' < n" | "m' = n" | "n < m'" by linarith
    then show ?thesis
    proof cases
      case 1
      then show ?thesis using e el [OF that] by simp
    next
      case 2
      have "elem ck i j k n = 0" using Cons.prems(9) that 2 by simp
      then show ?thesis using e el [OF that] 2 by (simp add: x step_key_def)
    next
      case 3
      then have "(x # xs) ! (m' - n) = xs ! (m' - Suc n)"
        by (simp add: nth_Cons')
      then show ?thesis using e 3 by simp
    qed
  qed
  show ?case
    using run r(2-7) els by auto
qed

lemma decode_branch_alloc:
  "decode_branch empty_cache q k v m bi =
     Inr (\<lparr>cached_key = Some (zeros (swap_dims (shape k))),
            cached_value = Some (zeros (swap_dims (shape v))),
            cache_index = Some 0\<rparr>, k, v, m, bi)"
  by (simp add: decode_branch_def empty_cache_def has_cached_key_def variable_def)

lemma attention_core_cache:
  assumes "attention_core md c q k v m bi decode det rngs = Inr (c', out)"
  shows "\<exists>k' v' m' b'. (if decode then decode_branch c q k v m bi else Inr (c, k, v, m, bi)) =
           Inr (c', k', v', m', b')"
  using assms
  by (auto simp: attention_core_def attention_arguments_def split: sum.splits prod.splits)

lemma alloc_call:
  assumes "decode_calls md det rngs empty_cache [(q, k, v, m, bi)] = Inr c0"
  shows "c0 = \<lparr>cached_key = Some (zeros (swap_dims (shape k))),
              cached_value = Some (zeros (swap_dims (shape v))),
              cache_index = Some 0\<rparr>"
proof -
  from assms obtain out where "attention_core md empty_cache q k v m bi True det rngs = Inr (c0, out)"
    by (auto split: sum.splits)
  from attention_core_cache [OF this] show ?thesis
    by (simp add: decode_branch_alloc)
qed

lemma concatenate_steps_snoc:
  "concatenate_steps b h d (xs @ [x]) = concatenate1 (concatenate_steps b h d xs) x"
  by (simp add: concatenate_steps_def)

lemma concatenate_steps_single_tokens:
  assumes "\<forall>x \<in> set xs. shape x = (b, 1, h, d)"
  shows "shape (concatenate_steps b h d xs) = (b, length xs, h, d) \<and>
         (\<forall>i t j m. t < length xs \<longrightarrow>
            elem (concatenate_steps b h d xs) i t j m = elem (xs ! t) i 0 j m)"
  using assms
proof (induction xs rule: rev_induct)
  case Nil
  then show ?case by (simp add: concatenate_steps_def zeros_def)
next
  case (snoc x xs)
  then have sh: "shape (concatenate_steps b h d xs) = (b, length xs, h, d)"
    and el: "\<And>i t j m. t < length xs \<Longrightarrow>
            elem (concatenate_steps b h d xs) i t j m = elem (xs ! t) i 0 j m"
    and x: "shape x = (b, 1, h, d)"
    by simp_all
  show ?case
    using sh x el
    by (auto simp: concatenate_steps_snoc concatenate1_def nth_append less_Suc_eq)
qed

lemma example_alloc:
  "decode_calls example_module True None empty_cache [example_prime] = Inr example_cache"
  by (simp add: example_prime_def example_cache_def attention_core_def attention_arguments_def
      decode_branch_alloc compose_bias_def mask_to_bias_def dropout_rng_def apply_attention_def
      attention_weights_def attention_logits_def zeros_def softmax_def swap_dims_def)

lemma example_contents:
  "contents (concatenate_steps 1 1 2 [token 1 0, token 0 1, token 1 1, token 0 0]) =
     [[[[1, 0]], [[0, 1]], [[1, 1]], [[0, 0]]]]"
  by (simp add: contents_def tabulate4_def concatenate_steps_def concatenate1_def token_def
      zeros_def eval_nat_numeral)

lemma step_key_example: "step_key (example_step a b) = token a b"
  by (simp add: step_key_def example_step_def)

lemma example_step_single_token:
  "single_token_call example_module True None (1, 1, 2, 4) (example_step a b)"
  by (simp add: single_token_call_def example_step_def token_def)

text \<open>
  Claim C1. A session whose first call allocates a cache of capacity \<open>L\<close> (below
  \<open>2^31\<close>, the range of the 32-bit index) and which then issues \<open>L\<close> single-token
  decode calls completes; afterwards \<^verbatim>\<open>cache_index\<close> is \<open>L\<close>, and \<^verbatim>\<open>cached_key\<close>, moved
  back to the layout \<^verbatim>\<open>(batch, length, heads, head_dim)\<close>, is the concatenation in call
  order of the keys of the steps.
\<close>

theorem sequential_decode_fills_cache:
  assumes alloc: "decode_calls md det0 rngs0 empty_cache [(q0, k0, v0, m0, b0)] = Inr c0"
    and k0: "shape k0 = (batch, L, nh, dh)" and v0: "shape v0 = (batch, L, nh, dh)"
    and len: "length steps = L" and L: "L < 2 ^ 31"
    and steps: "\<forall>x \<in> set steps. single_token_call md det rngs (batch, nh, dh, L) x"
  shows "\<exists>c ck ci. decode_calls md det rngs c0 steps = Inr c \<and>
           cache_index c = Some ci \<and> sint ci = int L \<and>
           cached_key c = Some ck \<and>
           array_equal (moveaxis_m1_m3 ck) (concatenate_steps batch nh dh (map step_key steps))"
proof -
  let ?ck0 = "zeros (batch, nh, dh, L)"
  have c0: "c0 = \<lparr>cached_key = Some ?ck0, cached_value = Some ?ck0, cache_index = Some 0\<rparr>"
    using alloc_call [OF alloc] by (simp add: k0 v0 swap_dims_def)
  have "\<exists>c' ck' cv' ci'. decode_calls md det rngs c0 steps = Inr c' \<and>
           cached_key c' = Some ck' \<and> cached_value c' = Some cv' \<and> cache_index c' = Some ci' \<and>
           shape ck' = (batch, nh, dh, L) \<and> shape cv' = (batch, nh, dh, L) \<and>
           sint ci' = int (0 + length steps) \<and>
           (\<forall>i<batch. \<forall>j<nh. \<forall>k<dh. \<forall>m<L. elem ck' i j k m =
              (if m < 0 then elem ?ck0 i j k m
               else if m < 0 + length steps then elem (step_key (steps ! (m - 0))) i 0 j k
               else 0))"
    by (rule decode_calls_inv [OF steps, where ci = 0 and cv = ?ck0])
      (use L in \<open>simp_all add: c0 zeros_def len\<close>)
  then obtain c ck ci where r: "decode_calls md det rngs c0 steps = Inr c"
    "cached_key c = Some ck" "cache_index c = Some ci" "shape ck = (batch, nh, dh, L)"
    "sint ci = int L"
    "\<forall>i<batch. \<forall>j<nh. \<forall>k<dh. \<forall>m<L. elem ck i j k m = elem (step_key (steps ! m)) i 0 j k"
    by (auto simp: len)
  have ks: "\<forall>x \<in> set (map step_key steps). shape x = (batch, 1, nh, dh)"
    using steps by (auto simp: single_token_call_def step_key_def)
  note cc = concatenate_steps_single_tokens [OF ks]
  have "array_equal (moveaxis_m1_m3 ck) (concatenate_steps batch nh dh (map step_key steps))"
    unfolding array_equal_def
  proof (intro conjI contents_eqI [where ?n1.0 = batch and ?n2.0 = L and ?n3.0 = nh and ?n4.0 = dh])
    show s1: "shape (moveaxis_m1_m3 ck) = (batch, L, nh, dh)"
      by (simp add: moveaxis_m1_m3_shape r(4))
    show s2: "shape (concatenate_steps batch nh dh (map step_key steps)) = (batch, L, nh, dh)"
      using cc by (simp add: len)
    show "shape (moveaxis_m1_m3 ck) = shape (concatenate_steps batch nh dh (map step_key steps))"
      by (simp add: s1 s2)
    show "elem (moveaxis_m1_m3 ck) i t j m =
          elem (concatenate_steps batch nh dh (map step_key steps)) i t j m"
      if "i < batch" "t < L" "j < nh" "m < dh" for i t j m
      using that r(6) cc by (simp add: moveaxis_m1_m3_def r(4) len)
  qed
  with r show ?thesis by blast
qed

text \<open>
  The concrete scenario: the keys \<open>[1,0]\<close>, \<open>[0,1]\<close>, \<open>[1,1]\<close>, \<open>[0,0]\<close> fed to a
  cache of four slots.
\<close>

theorem sequential_decode_witness:
  "\<exists>c ck ci. decode_calls example_module True None example_cache
       [example_step 1 0, example_step 0 1, example_step 1 1, example_step 0 0] = Inr c \<and>
     cache_index c = Some ci \<and> sint ci = 4 \<and> cached_key c = Some ck \<and>
     contents (moveaxis_m1_m3 ck) = [[[[1, 0]], [[0, 1]], [[1, 1]], [[0, 0]]]]"
proof -
  let ?steps = "[example_step 1 0, example_step 0 1, example_step 1 1, example_step 0 0]"
  have alloc: "decode_calls example_module True None empty_cache
      [(zeros (1, 4, 1, 2), zeros (1, 4, 1, 2), zeros (1, 4, 1, 2), None, None)] = Inr example_cache"
    using example_alloc by (simp only: example_prime_def)
  have sh: "shape (zeros (1, 4, 1, 2)) = (1, 4, 1, 2)" by (simp add: zeros_def)
  have len: "length ?steps = 4" by simp
  have L: "(4::nat) < 2 ^ 31" by simp
  have st: "\<forall>x \<in> set ?steps. single_token_call example_module True None (1, 1, 2, 4) x"
    using example_step_single_token by simp
  from sequential_decode_fills_cache [OF alloc sh sh len L st]
  obtain c ck ci where r: "decode_calls example_module True None example_cache ?steps = Inr c"
    "cache_index c = Some ci" "sint ci = int 4" "cached_key c = Some ck"
    "array_equal (moveaxis_m1_m3 ck) (concatenate_steps 1 1 2 (map step_key ?steps))"
    by blast
  from r(5) have "contents (moveaxis_m1_m3 ck) = [[[[1, 0]], [[0, 1]], [[1, 1]], [[0, 0]]]]"
    using example_contents by (simp add: array_equal_def step_key_example)
  with r(1-4) show ?thesis by (intro exI [of _ c] exI [of _ ck] exI [of _ ci]) simp
qed

section \<open>The cache shape check\<close>

lemma broadcast2_error: "broadcast2 f x y = Inl e \<Longrightarrow> e = BroadcastError"
  by (auto simp: broadcast2_def split: option.splits)

lemma cache_update_error: "cache_update ck cv ci key val = Inl e \<Longrightarrow> e = BroadcastError"
  by (auto simp: cache_update_def Let_def split: prod.splits sum.splits dest: broadcast2_error)

lemma combine_masks_error: "combine_masks m1 m2 = Inl e \<Longrightarrow> e = BroadcastError"
  by (auto simp: combine_masks_def split: option.splits sum.splits dest: broadcast2_error)

lemma decode_bias_error: "decode_bias bias ci = Inl e \<Longrightarrow> e = SqueezeError \<or> e = SliceError"
  by (auto simp: decode_bias_def squeeze0_def dynamic_vector_slice_in_dim_def
      split: option.splits sum.splits prod.splits if_splits)

lemma compose_bias_error: "compose_bias astype m b = Inl e \<Longrightarrow> e = BroadcastError"
  by (auto simp: compose_bias_def combine_biases_def Let_def
      split: option.splits sum.splits if_splits dest: broadcast2_error)

lemma dropout_rng_error: "dropout_rng derive det rate rngs = Inl e \<Longrightarrow> e = MissingRngError"
  by (auto simp: dropout_rng_def make_rng_def split: option.splits sum.splits if_splits)

lemma attention_logits_error:
  "attention_logits q k b = Inl e \<Longrightarrow>
     e = ContractionError \<or> e = BroadcastError \<or> e = ConfigurationError"
  by (auto simp: attention_logits_def Let_def split: prod.splits option.splits if_splits
      dest: broadcast2_error)

lemma apply_attention_error:
  "apply_attention md q k v b r = Inl e \<Longrightarrow>
     e = ContractionError \<or> e = BroadcastError \<or> e = ConfigurationError"
  by (auto simp: apply_attention_def attention_weights_def Let_def
      split: sum.splits prod.splits option.splits if_splits dest: attention_logits_error)

lemma decode_branch_shape_error:
  assumes "cached_key c = Some ck" "shape ck = (batch, nh, dh, len)"
    and "shape query \<noteq> (batch, 1, nh, dh)"
  shows "decode_branch c query key val msk bias =
           Inl (CacheShapeError (batch, 1, nh, dh) (shape query))"
  using assms
  by (simp add: decode_branch_def has_cached_key_def variable_def expected_shape_def Let_def)

lemma decode_branch_no_shape_error:
  assumes "cached_key c = Some ck" "shape ck = (batch, nh, dh, len)"
    and "shape query = (batch, 1, nh, dh)"
  shows "decode_branch c query key val msk bias \<noteq> Inl (CacheShapeError e g)"
  using assms
  by (auto simp: decode_branch_def has_cached_key_def variable_def expected_shape_def Let_def
      split: sum.splits prod.splits
      dest: cache_update_error combine_masks_error decode_bias_error)

lemma attention_core_error:
  assumes "attention_core md c query key val msk bias True det rngs = Inl e"
  shows "decode_branch c query key val msk bias = Inl e \<or> e = BroadcastError \<or>
         e = MissingRngError \<or> e = ContractionError \<or> e = ConfigurationError"
  using assms
  by (auto simp: attention_core_def attention_arguments_def
      split: sum.splits prod.splits
      dest: compose_bias_error dropout_rng_error apply_attention_error)

text \<open>
  Claim C4. A decode call against an allocated cache of shape \<^verbatim>\<open>(batch, num_heads,
  head_dim, max_length)\<close> raises the shape error of the cache sanity check if and only
  if the shape of the query differs from \<^verbatim>\<open>(batch, 1, num_heads, head_dim)\<close>, and then
  the error carries the expected and the actual shape. A single-token call, whose
  key, value, mask and bias conform as well, raises no error at all.
\<close>

theorem cache_shape_error_iff:
  assumes "cached_key c = Some ck" "shape ck = (batch, nh, dh, len)"
  shows "((\<exists>e g. attention_core md c query key val msk bias True det rngs =
             Inl (CacheShapeError e g)) \<longleftrightarrow> shape query \<noteq> (batch, 1, nh, dh)) \<and>
         (shape query \<noteq> (batch, 1, nh, dh) \<longrightarrow>
            attention_core md c query key val msk bias True det rngs =
              Inl (CacheShapeError (batch, 1, nh, dh) (shape query))) \<and>
         (cached_value c = Some cv \<and> shape cv = (batch, nh, dh, len) \<and>
          cache_index c = Some ci \<and>
          single_token_call md det rngs (batch, nh, dh, len) (query, key, val, msk, bias) \<longrightarrow>
            (\<exists>r. attention_core md c query key val msk bias True det rngs = Inr r))"
proof -
  have check: "((\<exists>e g. attention_core md c query key val msk bias True det rngs =
             Inl (CacheShapeError e g)) \<longleftrightarrow> shape query \<noteq> (batch, 1, nh, dh)) \<and>
         (shape query \<noteq> (batch, 1, nh, dh) \<longrightarrow>
            attention_core md c query key val msk bias True det rngs =
              Inl (CacheShapeError (batch, 1, nh, dh) (shape query)))"
  proof (cases "shape query = (batch, 1, nh, dh)")
    case True
    have "attention_core md c query key val msk bias True det rngs \<noteq> Inl (CacheShapeError e g)"
      for e g
      using attention_core_error [of md c query key val msk bias det rngs "CacheShapeError e g"]
        decode_branch_no_shape_error [OF assms True, of key val msk bias e g]
      by auto
    with True show ?thesis by blast
  next
    case False
    from decode_branch_shape_error [OF assms False, of key val msk bias]
    have "attention_core md c query key val msk bias True det rngs =
        Inl (CacheShapeError (batch, 1, nh, dh) (shape query))"
      by (simp add: attention_core_def attention_arguments_def)
    with False show ?thesis by blast
  qed
  have returns: "\<exists>r. attention_core md c query key val msk bias True det rngs = Inr r"
    if "cached_value c = Some cv" "shape cv = (batch, nh, dh, len)" "cache_index c = Some ci"
      "single_token_call md det rngs (batch, nh, dh, len) (query, key, val, msk, bias)"
    using decode_call_ok [OF assms(1) that(1,3) assms(2) that(2,4)] by blast
  from check returns show ?thesis by blast
qed

text \<open>
  A query of length 2 against the example cache raises; the token of a step does not,
  and its call returns.
\<close>

theorem cache_shape_error_witness:
  "attention_core example_module example_cache (zeros (1, 2, 1, 2)) (token 1 0) (token 1 0)
       None None True True None = Inl (CacheShapeError (1, 1, 1, 2) (1, 2, 1, 2)) \<and>
   \<not> (\<exists>e g. attention_core example_module example_cache (token 1 0) (token 1 0) (token 1 0)
       None None True True None = Inl (CacheShapeError e g)) \<and>
   (\<exists>r. attention_core example_module example_cache (token 1 0) (token 1 0) (token 1 0)
       None None True True None = Inr r)"
proof -
  have ck: "cached_key example_cache = Some (zeros (1, 1, 2, 4))"
    and cv: "cached_value example_cache = Some (zeros (1, 1, 2, 4))"
    and ci: "cache_index example_cache = Some 0"
    by (simp_all add: example_cache_def)
  have sh: "shape (zeros (1, 1, 2, 4)) = (1, 1, 2, 4)"
    by (simp add: zeros_def)
  have st: "single_token_call example_module True None (1, 1, 2, 4)
      (token 1 0, token 1 0, token 1 0, None, None)"
    using example_step_single_token [of 1 0] by (simp add: example_step_def)
  from cache_shape_error_iff [OF ck sh, of example_module "zeros (1, 2, 1, 2)" "token 1 0"
      "token 1 0" None None True None]
  have a: "attention_core example_module example_cache (zeros (1, 2, 1, 2)) (token 1 0) (token 1 0)
       None None True True None = Inl (CacheShapeError (1, 1, 1, 2) (1, 2, 1, 2))"
    by (simp add: zeros_def)
  from cache_shape_error_iff [OF ck sh, of example_module "token 1 0" "token 1 0"
      "token 1 0" None None True None "zeros (1, 1, 2, 4)" 0] cv ci sh st
  have b: "\<not> (\<exists>e g. attention_core example_module example_cache (token 1 0) (token 1 0) (token 1 0)
       None None True True None = Inl (CacheShapeError e g)) \<and>
   (\<exists>r. attention_core example_module example_cache (token 1 0) (token 1 0) (token 1 0)
       None None True True None = Inr r)"
    by (simp add: token_def)
  from a b show ?thesis by blast
qed

section \<open>Decoding beyond the capacity\<close>

lemma one_hot_out_of_range:
  assumes "int len \<le> sint ci"
  shows "contents (one_hot ci len) = [[[replicate len 0]]]"
proof -
  have "map (\<lambda>m. if int m = sint ci then (1::real) else 0) [0..<len] = map (\<lambda>m. 0) [0..<len]"
    using assms by (intro map_cong) auto
  then show ?thesis
    by (simp add: contents_def tabulate4_def one_hot_def map_replicate_const)
qed

lemma scatter_out_of_range:
  assumes "shape c = (b, h, d, l)" "shape x = (b, 1, h, d)" "int l \<le> sint ci"
  shows "array_equal (scatter c ci x) c"
  unfolding array_equal_def
proof (intro conjI contents_eqI [where ?n1.0 = b and ?n2.0 = h and ?n3.0 = d and ?n4.0 = l])
  show "shape (scatter c ci x) = (b, h, d, l)" by (simp add: scatter_shape assms(1))
  show "shape c = (b, h, d, l)" by (rule assms(1))
  show "shape (scatter c ci x) = shape c" by (rule scatter_shape)
  show "elem (scatter c ci x) i j k m = elem c i j k m"
    if "i < b" "j < h" "k < d" "m < l" for i j k m
    using scatter_elem [OF assms(1,2) that, of ci] assms(3) that(4) by simp
qed

text \<open>
  Claim C10. A single-token decode call issued when \<^verbatim>\<open>cache_index\<close> is already at or
  beyond \<^verbatim>\<open>max_length\<close> builds a one-hot vector of zeros, returns without error,
  leaves the contents of \<^verbatim>\<open>cached_key\<close> and \<^verbatim>\<open>cached_value\<close> as they were and
  stores \<^verbatim>\<open>cache_index + 1\<close> (32-bit addition).
\<close>

theorem decode_beyond_capacity:
  assumes "cached_key c = Some ck" "cached_value c = Some cv" "cache_index c = Some ci"
    and "shape ck = (batch, nh, dh, len)" "shape cv = (batch, nh, dh, len)"
    and "single_token_call md det rngs (batch, nh, dh, len) (q, k, v, m, bi)"
    and "int len \<le> sint ci"
  shows "contents (one_hot ci len) = [[[replicate len 0]]] \<and>
         (\<exists>c' out ck' cv'. attention_core md c q k v m bi True det rngs = Inr (c', out) \<and>
            cached_key c' = Some ck' \<and> array_equal ck' ck \<and>
            cached_value c' = Some cv' \<and> array_equal cv' cv \<and>
            cache_index c' = Some (ci + 1))"
proof -
  from assms(6) have ks: "shape k = (batch, 1, nh, dh)" and vs: "shape v = (batch, 1, nh, dh)"
    by (simp_all add: single_token_call_def)
  from decode_call_ok [OF assms(1-6)] obtain out where
    "attention_core md c q k v m bi True det rngs =
       Inr (\<lparr>cached_key = Some (scatter ck ci k), cached_value = Some (scatter cv ci v),
              cache_index = Some (ci + 1)\<rparr>, out)" by blast
  moreover have "array_equal (scatter ck ci k) ck"
    by (rule scatter_out_of_range [OF assms(4) ks assms(7)])
  moreover have "array_equal (scatter cv ci v) cv"
    by (rule scatter_out_of_range [OF assms(5) vs assms(7)])
  ultimately show ?thesis
    using one_hot_out_of_range [OF assms(7)] by simp
qed

text \<open>
  A fifth step on the example cache of four slots.
\<close>

theorem decode_beyond_capacity_witness:
  "contents (one_hot 4 4) = [[[[0, 0, 0, 0]]]] \<and>
   (\<exists>c' out ck' cv'. attention_core example_module full_cache (token 1 1) (token 1 1) (token 1 1)
        None None True True None = Inr (c', out) \<and>
      cached_key c' = Some ck' \<and> array_equal ck' (zeros (1, 1, 2, 4)) \<and>
      cached_value c' = Some cv' \<and> array_equal cv' (zeros (1, 1, 2, 4)) \<and>
      cache_index c' = Some 5)"
proof -
  have c: "cached_key full_cache = Some (zeros (1, 1, 2, 4))"
    "cached_value full_cache = Some (zeros (1, 1, 2, 4))" "cache_index full_cache = Some 4"
    by (simp_all add: full_cache_def)
  have sh: "shape (zeros (1, 1, 2, 4)) = (1, 1, 2, 4)" by (simp add: zeros_def)
  have st: "single_token_call example_module True None (1, 1, 2, 4)
      (token 1 1, token 1 1, token 1 1, None, None)"
    using example_step_single_token [of 1 1] by (simp add: example_step_def)
  have i: "int 4 \<le> sint (4 :: 32 word)" by simp
  from decode_beyond_capacity [OF c sh sh st i]
  show ?thesis by (simp add: eval_nat_numeral)
qed

section \<open>The cache index\<close>

lemma decode_calls_append:
  "decode_calls md det rngs c (xs @ ys) =
     (case decode_calls md det rngs c xs of Inl e \<Rightarrow> Inl e
      | Inr c' \<Rightarrow> decode_calls md det rngs c' ys)"
  by (induction xs arbitrary: c) (auto split: sum.splits prod.splits)

lemma session_index:
  assumes alloc: "decode_calls md det0 rngs0 empty_cache [(q0, k0, v0, m0, b0)] = Inr c0"
    and k0: "shape k0 = (batch, L, nh, dh)" and v0: "shape v0 = (batch, L, nh, dh)"
    and len: "length steps < 2 ^ 31"
    and steps: "\<forall>x \<in> set steps. single_token_call md det rngs (batch, nh, dh, L) x"
  shows "c0 = \<lparr>cached_key = Some (zeros (batch, nh, dh, L)),
               cached_value = Some (zeros (batch, nh, dh, L)), cache_index = Some 0\<rparr>"
    and "index_after (decode_calls md det rngs c0 steps) = Some (int (length steps))"
    and "max_length_after (decode_calls md det rngs c0 steps) = Some L"
proof -
  let ?z = "zeros (batch, nh, dh, L)"
  show c0: "c0 = \<lparr>cached_key = Some ?z, cached_value = Some ?z, cache_index = Some 0\<rparr>"
    using alloc_call [OF alloc] by (simp add: k0 v0 swap_dims_def)
  have "\<exists>c' ck' cv' ci'. decode_calls md det rngs c0 steps = Inr c' \<and>
           cached_key c' = Some ck' \<and> cached_value c' = Some cv' \<and> cache_index c' = Some ci' \<and>
           shape ck' = (batch, nh, dh, L) \<and> shape cv' = (batch, nh, dh, L) \<and>
           sint ci' = int (0 + length steps) \<and>
           (\<forall>i<batch. \<forall>j<nh. \<forall>k<dh. \<forall>m<L. elem ck' i j k m =
              (if m < 0 then elem ?z i j k m
               else if m < 0 + length steps then elem (step_key (steps ! (m - 0))) i 0 j k
               else 0))"
    by (rule decode_calls_inv [OF steps, where ci = 0 and cv = ?z])
      (use len in \<open>simp_all add: c0 zeros_def\<close>)
  then obtain c ck ci where r: "decode_calls md det rngs c0 steps = Inr c"
    "cached_key c = Some ck" "cache_index c = Some ci" "shape ck = (batch, nh, dh, L)"
    "sint ci = int (length steps)"
    by auto
  show "index_after (decode_calls md det rngs c0 steps) = Some (int (length steps))"
    by (simp add: index_after_def r)
  show "max_length_after (decode_calls md det rngs c0 steps) = Some L"
    by (simp add: max_length_after_def r)
qed

text \<open>
  Claim C3, amended. The first decode call of a session allocates the cache, filled
  with zeros, with \<^verbatim>\<open>cache_index = 0\<close> and the capacity \<^verbatim>\<open>max_length\<close> of its key; the
  single-token decode calls that follow keep that capacity and each adds 1 to
  \<^verbatim>\<open>cache_index\<close> without comparing it with \<^verbatim>\<open>max_length\<close>, so after \<open>n\<close> of them
  (\<open>n\<close> below \<open>2^31\<close>) \<^verbatim>\<open>cache_index\<close> is \<open>n\<close>: it is never negative there, and it is
  below \<^verbatim>\<open>max_length\<close> only while \<open>n\<close> is.
\<close>

theorem cache_index_counts_decode_steps:
  assumes "decode_calls md det0 rngs0 empty_cache [(q0, k0, v0, m0, b0)] = Inr c0"
    and "shape k0 = (batch, L, nh, dh)" and "shape v0 = (batch, L, nh, dh)"
    and "length steps < 2 ^ 31"
    and "\<forall>x \<in> set steps. single_token_call md det rngs (batch, nh, dh, L) x"
  shows "cached_key c0 = Some (zeros (batch, nh, dh, L)) \<and>
         cached_value c0 = Some (zeros (batch, nh, dh, L)) \<and>
         cache_index c0 = Some 0 \<and>
         index_after (decode_calls md det rngs c0 steps) = Some (int (length steps)) \<and>
         max_length_after (decode_calls md det rngs c0 steps) = Some L"
  using session_index [OF assms] by simp

lemma example_session_alloc:
  "decode_calls example_module True None empty_cache
     [(zeros (1, 4, 1, 2), zeros (1, 4, 1, 2), zeros (1, 4, 1, 2), None, None)] = Inr example_cache"
  using example_alloc by (simp only: example_prime_def)

lemma example_steps_single_token:
  "\<forall>x \<in> set [example_step 1 0, example_step 0 1, example_step 1 1, example_step 0 0].
     single_token_call example_module True None (1, 1, 2, 4) x"
  using example_step_single_token by simp

lemma zeros_shape: "shape (zeros s) = s"
  by (simp add: zeros_def)

text \<open>
  The example session: index 0 after allocation, index 4 and capacity 4 after four steps.
\<close>

theorem cache_index_counts_witness:
  "cache_index example_cache = Some 0 \<and>
   index_after (decode_calls example_module True None example_cache
     [example_step 1 0, example_step 0 1, example_step 1 1, example_step 0 0]) = Some 4 \<and>
   max_length_after (decode_calls example_module True None example_cache
     [example_step 1 0, example_step 0 1, example_step 1 1, example_step 0 0]) = Some 4"
proof -
  have len: "length [example_step 1 0, example_step 0 1, example_step 1 1, example_step 0 0] < 2 ^ 31"
    by simp
  from cache_index_counts_decode_steps [OF example_session_alloc zeros_shape zeros_shape len
      example_steps_single_token]
  show ?thesis by simp
qed

text \<open>
  Claim C3 as stated fails: after the allocating call and four decode steps on a cache
  of four slots \<^verbatim>\<open>cache_index\<close> equals \<^verbatim>\<open>max_length\<close>.
\<close>

theorem cache_index_reaches_max_length:
  "index_after (decode_calls example_module True None empty_cache
     [example_prime, example_step 1 0, example_step 0 1, example_step 1 1, example_step 0 0]) = Some 4 \<and>
   max_length_after (decode_calls example_module True None empty_cache
     [example_prime, example_step 1 0, example_step 0 1, example_step 1 1, example_step 0 0]) = Some 4 \<and>
   \<not> index_in_range (decode_calls example_module True None empty_cache
     [example_prime, example_step 1 0, example_step 0 1, example_step 1 1, example_step 0 0])"
proof -
  let ?steps = "[example_step 1 0, example_step 0 1, example_step 1 1, example_step 0 0]"
  have len: "length ?steps < 2 ^ 31" by simp
  have "decode_calls example_module True None empty_cache ([example_prime] @ ?steps) =
        decode_calls example_module True None example_cache ?steps"
    by (simp only: decode_calls_append example_alloc sum.case)
  then show ?thesis
    using session_index(2,3) [OF example_session_alloc zeros_shape zeros_shape len
      example_steps_single_token]
    by (simp add: index_in_range_def)
qed

section \<open>The causal restriction\<close>






section \<open>The bias of a decode step\<close>

lemma bidx_in_range:
  assumes "broadcast_dim m n = Some c" "j < c"
  shows "bidx n j < n" "bidx m j < m"
  using assms by (auto simp: broadcast_dim_def bidx_def split: if_splits)

lemma broadcast2_cong_right:
  assumes sy: "shape y = (n1, n2, n3, n4)" and sy': "shape y' = (n1, n2, n3, n4)"
    and eq: "\<And>i j k m. i < n1 \<Longrightarrow> j < n2 \<Longrightarrow> k < n3 \<Longrightarrow> m < n4 \<Longrightarrow>
               elem y i j k m = elem y' i j k m"
    and z: "broadcast2 f x y = Inr z"
  shows "\<exists>z'. broadcast2 f x y' = Inr z' \<and> array_equal z z'"
proof -
  obtain a1 a2 a3 a4 where sx: "shape x = (a1, a2, a3, a4)" by (cases "shape x") auto
  from z obtain u where u: "broadcast_shapes (shape x) (shape y) = Some u"
    and zd: "z = \<lparr>shape = u,
                 elem = (\<lambda>i j k m. f (broadcast_at x i j k m) (broadcast_at y i j k m))\<rparr>"
    by (auto simp: broadcast2_def split: option.splits)
  obtain u1 u2 u3 u4 where ud: "u = (u1, u2, u3, u4)" by (cases u) auto
  from u have d: "broadcast_dim a1 n1 = Some u1" "broadcast_dim a2 n2 = Some u2"
    "broadcast_dim a3 n3 = Some u3" "broadcast_dim a4 n4 = Some u4"
    by (simp_all add: sx sy ud broadcast_shapes_Some_iff)
  let ?z' = "\<lparr>shape = u,
              elem = (\<lambda>i j k m. f (broadcast_at x i j k m) (broadcast_at y' i j k m))\<rparr>"
  have z': "broadcast2 f x y' = Inr ?z'"
    using u by (simp add: broadcast2_def sy sy')
  have "array_equal z ?z'"
    unfolding array_equal_def
  proof (intro conjI contents_eqI [where ?n1.0 = u1 and ?n2.0 = u2 and ?n3.0 = u3 and ?n4.0 = u4])
    show "shape z = (u1, u2, u3, u4)" by (simp add: zd ud)
    show "shape ?z' = (u1, u2, u3, u4)" by (simp add: ud)
    show "shape z = shape ?z'" by (simp add: zd)
    show "elem z i j k m = elem ?z' i j k m" if "i < u1" "j < u2" "k < u3" "m < u4" for i j k m
    proof -
      have "broadcast_at y i j k m = broadcast_at y' i j k m"
        using eq [OF bidx_in_range(1) [OF d(1) that(1)] bidx_in_range(1) [OF d(2) that(2)]
            bidx_in_range(1) [OF d(3) that(3)] bidx_in_range(1) [OF d(4) that(4)]]
        by (simp add: broadcast_at_def sy sy')
      then show ?thesis by (simp add: zd)
    qed
  qed
  with z' show ?thesis by blast
qed

lemma slice_start_in_range:
  assumes "0 \<le> sint ci" "sint ci < int nq"
  shows "slice_start ci nq 1 = nat (sint ci)"
  using assms by (simp add: slice_start_def Let_def)

lemma array_equal_iff:
  assumes "shape x = (n1, n2, n3, n4)"
  shows "array_equal x y \<longleftrightarrow> shape y = (n1, n2, n3, n4) \<and>
     (\<forall>i<n1. \<forall>j<n2. \<forall>k<n3. \<forall>m<n4. elem x i j k m = elem y i j k m)"
proof
  assume "array_equal x y"
  then have sy: "shape y = (n1, n2, n3, n4)" and ct: "contents x = contents y"
    by (simp_all add: array_equal_def assms)
  from ct have "\<forall>i<n1. \<forall>j<n2. \<forall>k<n3. \<forall>m<n4. elem x i j k m = elem y i j k m"
    by (simp add: contents_def tabulate4_def assms sy)
  with sy show "shape y = (n1, n2, n3, n4) \<and>
     (\<forall>i<n1. \<forall>j<n2. \<forall>k<n3. \<forall>m<n4. elem x i j k m = elem y i j k m)" by simp
next
  assume "shape y = (n1, n2, n3, n4) \<and>
     (\<forall>i<n1. \<forall>j<n2. \<forall>k<n3. \<forall>m<n4. elem x i j k m = elem y i j k m)"
  then show "array_equal x y"
    using assms by (simp add: array_equal_def contents_def tabulate4_def)
qed

lemma decode_branch_unfold:
  assumes "cached_key c = Some ck" "cached_value c = Some cv" "cache_index c = Some ci"
    and "shape ck = (b, h, d, l)" "shape cv = (b, h, d, l)"
    and "shape q = (b, 1, h, d)" "shape k = (b, 1, h, d)" "shape v = (b, 1, h, d)"
  shows "decode_branch c q k v m bi =
     (case combine_masks m (Some (causal_mask b l ci)) of Inl e \<Rightarrow> Inl e
      | Inr msk' \<Rightarrow>
          (case decode_bias bi ci of Inl e \<Rightarrow> Inl e
           | Inr bias' \<Rightarrow>
               Inr (\<lparr>cached_key = Some (scatter ck ci k), cached_value = Some (scatter cv ci v),
                      cache_index = Some (ci + 1)\<rparr>,
                    moveaxis_m1_m3 (scatter ck ci k), moveaxis_m1_m3 (scatter cv ci v),
                    msk', bias')))"
  using assms(1-6) cache_update_conforming [OF assms(4,5,7,8), of ci]
  by (simp add: decode_branch_def has_cached_key_def variable_def expected_shape_def)

text \<open>
  Claim C6. In a single-token decode call that is given a bias (with leading size 1, as
  the squeeze of line 218 requires) whose rows cover the current position, the bias
  handed on by the decode branch is the row of the supplied bias at \<^verbatim>\<open>cache_index\<close>,
  that is \<^verbatim>\<open>bias[..., cur_index:cur_index+1, :]\<close>, and the attention bias of the call
  is that row added to the bias made from the combined mask: its shape is the broadcast
  of the two shapes, and each of its elements is the sum of the element of the mask bias
  and the element of the row at \<^verbatim>\<open>cache_index\<close> that broadcasting reads there. No other
  row of the supplied bias enters: any other bias of that shape with the same row at
  \<^verbatim>\<open>cache_index\<close> gives the same attention bias.
\<close>

theorem decode_bias_is_current_row:
  assumes c: "cached_key c = Some ck" "cached_value c = Some cv" "cache_index c = Some ci"
    and sh: "shape ck = (batch, nh, dh, len)" "shape cv = (batch, nh, dh, len)"
    and st: "single_token_call md det rngs (batch, nh, dh, len) (q, k, v, m, Some a)"
    and sa: "shape a = (n0, n1, nq, nk)"
    and rg: "0 \<le> sint ci" "sint ci < int nq"
  shows "\<exists>c' key' val' msk' row mb ab rng.
           decode_branch c q k v m (Some a) = Inr (c', key', val', Some msk', Some row) \<and>
           array_equal row (bias_row a (nat (sint ci))) \<and>
           mask_to_bias (dtype md) (Some msk') = Some mb \<and>
           attention_arguments md c q k v m (Some a) True det rngs =
             Inr (c', key', val', Some ab, rng) \<and>
           broadcast_shapes (shape mb) (shape (bias_row a (nat (sint ci)))) = Some (shape ab) \<and>
           (\<forall>i j r n. elem ab i j r n =
              broadcast_at mb i j r n + broadcast_at (bias_row a (nat (sint ci))) i j r n) \<and>
           (\<forall>a'. shape a' = shape a \<longrightarrow>
              array_equal (bias_row a' (nat (sint ci))) (bias_row a (nat (sint ci))) \<longrightarrow>
              (\<exists>ab'. attention_arguments md c q k v m (Some a') True det rngs =
                        Inr (c', key', val', Some ab', rng) \<and> array_equal ab ab'))"
proof -
  let ?t = "nat (sint ci)"
  let ?c' = "\<lparr>cached_key = Some (scatter ck ci k), cached_value = Some (scatter cv ci v),
               cache_index = Some (ci + 1)\<rparr>"
  let ?key' = "moveaxis_m1_m3 (scatter ck ci k)"
  let ?val' = "moveaxis_m1_m3 (scatter cv ci v)"
  define rowof where "rowof = (\<lambda>b :: real array4.
     \<lparr>shape = (1, n1, 1, nk), elem = (\<lambda>_ h _ n. elem b 0 h (slice_start ci nq 1) n)\<rparr>)"
  from st sa have n0: "n0 = 1" and nq: "1 \<le> nq"
    by (simp_all add: single_token_call_def)
  have ss: "slice_start ci nq (Suc 0) = ?t" using slice_start_in_range [OF rg] by simp
  from st have qs: "shape q = (batch, 1, nh, dh)" and ks: "shape k = (batch, 1, nh, dh)"
    and vs: "shape v = (batch, 1, nh, dh)"
    and ms: "case m of None \<Rightarrow> True | Some x \<Rightarrow> fits (shape x) (batch, nh, 1, len)"
    by (simp_all add: single_token_call_def)
  from combine_masks_causal [OF ms, of ci] obtain mk where
    cm: "combine_masks m (Some (causal_mask batch len ci)) = Inr (Some mk)" by blast
  have dbg: "decode_branch c q k v m (Some b') = Inr (?c', ?key', ?val', Some mk, Some (rowof b'))"
    if "shape b' = shape a" for b'
  proof -
    have "decode_bias (Some b') ci = Inr (Some (rowof b'))"
      using decode_bias_ok [of b' n1 nq nk ci] that sa n0 nq by (simp add: rowof_def)
    then show ?thesis
      by (simp add: decode_branch_unfold [OF c sh qs ks vs] cm)
  qed
  have dba: "decode_branch c q k v m (Some a) = Inr (?c', ?key', ?val', Some mk, Some (rowof a))"
    by (rule dbg) simp
  have row_eq: "array_equal (rowof a) (bias_row a ?t)"
    unfolding array_equal_def
    by (intro conjI contents_eqI [where ?n1.0 = 1 and ?n2.0 = n1 and ?n3.0 = 1 and ?n4.0 = nk])
      (simp_all add: rowof_def bias_row_def sa n0 ss)
  from decode_call_ok [OF c sh st] obtain out where
    "attention_core md c q k v m (Some a) True det rngs = Inr (?c', out)" by blast
  then obtain ab0 rng where
    aa: "attention_arguments md c q k v m (Some a) True det rngs = Inr (?c', ?key', ?val', ab0, rng)"
    using dba
    by (auto simp: attention_core_def attention_arguments_def split: sum.splits prod.splits)
  let ?mb = "\<lparr>shape = shape mk,
              elem = (\<lambda>i j k l. if elem mk i j k l then dtype md 0
                                 else dtype md (- 10000000000))\<rparr>"
  have mb: "mask_to_bias (dtype md) (Some mk) = Some ?mb"
    by (simp add: mask_to_bias_def)
  from aa dba have cb: "broadcast2 (+) ?mb (rowof a) = Inr (the ab0) \<and> ab0 \<noteq> None"
    and dr: "dropout_rng (rng_fold md) det (dropout_rate md) rngs = Inr rng"
    by (auto simp: attention_arguments_def compose_bias_def mask_to_bias_def combine_biases_def
        split: sum.splits)
  then obtain ab where ab: "ab0 = Some ab" "broadcast2 (+) ?mb (rowof a) = Inr ab" by auto
  have srow: "shape (bias_row a ?t) = shape (rowof a)"
    by (simp add: bias_row_def rowof_def sa n0)
  have erow: "broadcast_at (bias_row a ?t) i j r n = broadcast_at (rowof a) i j r n" for i j r n
    by (simp add: broadcast_at_def bias_row_def rowof_def sa n0 ss bidx_def)
  from ab(2) obtain s where
    s: "broadcast_shapes (shape ?mb) (shape (rowof a)) = Some s"
    and abd: "ab = \<lparr>shape = s,
                    elem = (\<lambda>i j k l. broadcast_at ?mb i j k l + broadcast_at (rowof a) i j k l)\<rparr>"
    by (auto simp: broadcast2_def split: option.splits)
  have shp: "broadcast_shapes (shape ?mb) (shape (bias_row a ?t)) = Some (shape ab)"
    using s by (simp add: srow abd)
  have sum: "\<forall>i j r n. elem ab i j r n =
               broadcast_at ?mb i j r n + broadcast_at (bias_row a ?t) i j r n"
    by (simp add: abd erow)
  have other: "\<exists>ab'. attention_arguments md c q k v m (Some a') True det rngs =
                        Inr (?c', ?key', ?val', Some ab', rng) \<and> array_equal ab ab'"
    if sa': "shape a' = shape a"
      and re: "array_equal (bias_row a' ?t) (bias_row a ?t)" for a'
  proof -
    have br: "shape (bias_row a' ?t) = (1, n1, 1, nk)"
      by (simp add: bias_row_def sa' sa n0)
    from re have pt: "\<forall>i<1. \<forall>j<n1. \<forall>r<1. \<forall>n<nk.
        elem (bias_row a' ?t) i j r n = elem (bias_row a ?t) i j r n"
      by (simp add: array_equal_iff [OF br])
    have eq: "elem (rowof a) i j r n = elem (rowof a') i j r n"
      if "i < 1" "j < n1" "r < 1" "n < nk" for i j r n
      using pt that by (simp add: rowof_def bias_row_def sa sa' n0 ss)
    from broadcast2_cong_right [of "rowof a" 1 n1 1 nk "rowof a'", OF _ _ eq ab(2)]
    obtain ab' where ab': "broadcast2 (+) ?mb (rowof a') = Inr ab'" "array_equal ab ab'"
      by (auto simp: rowof_def)
    have "attention_arguments md c q k v m (Some a') True det rngs =
            Inr (?c', ?key', ?val', Some ab', rng)"
      using dbg [OF sa'] ab'(1) dr
      by (simp add: attention_arguments_def compose_bias_def mask_to_bias_def combine_biases_def)
    with ab'(2) show ?thesis by blast
  qed
  from aa ab(1) have aa': "attention_arguments md c q k v m (Some a) True det rngs =
      Inr (?c', ?key', ?val', Some ab, rng)" by simp
  show ?thesis
    by (intro exI conjI) (rule dba, rule row_eq, rule mb, rule aa', rule shp, rule sum,
        use other in blast)
qed

text \<open>
  The first step on the example cache with a bias over four positions: row 0 is used, and
  the attention bias is \<^verbatim>\<open>[0, -1e10 + 1, -1e10 + 2, -1e10 + 3]\<close>, the sentinel on the three
  positions after the current one plus row 0 of the bias.
\<close>

theorem decode_bias_witness:
  "contents (bias_row example_bias 0) = [[[[0, 1, 2, 3]]]] \<and>
   (\<exists>c' key' val' msk' row mb ab rng.
      decode_branch example_cache (token 1 0) (token 1 0) (token 1 0) None (Some example_bias) =
        Inr (c', key', val', Some msk', Some row) \<and>
      array_equal row (bias_row example_bias 0) \<and>
      mask_to_bias (\<lambda>x. x) (Some msk') = Some mb \<and>
      attention_arguments example_module example_cache (token 1 0) (token 1 0) (token 1 0) None
          (Some example_bias) True True None = Inr (c', key', val', Some ab, rng) \<and>
      broadcast_shapes (shape mb) (shape (bias_row example_bias 0)) = Some (shape ab) \<and>
      (\<forall>i j r n. elem ab i j r n =
         broadcast_at mb i j r n + broadcast_at (bias_row example_bias 0) i j r n) \<and>
      contents ab = [[[[0, - 9999999999, - 9999999998, - 9999999997]]]] \<and>
      (\<forall>a'. shape a' = shape example_bias \<longrightarrow>
         array_equal (bias_row a' 0) (bias_row example_bias 0) \<longrightarrow>
         (\<exists>ab'. attention_arguments example_module example_cache (token 1 0) (token 1 0)
                   (token 1 0) None (Some a') True True None =
                   Inr (c', key', val', Some ab', rng) \<and> array_equal ab ab')))"
proof -
  have c: "cached_key example_cache = Some (zeros (1, 1, 2, 4))"
    "cached_value example_cache = Some (zeros (1, 1, 2, 4))" "cache_index example_cache = Some 0"
    by (simp_all add: example_cache_def)
  have st: "single_token_call example_module True None (1, 1, 2, 4)
      (token 1 0, token 1 0, token 1 0, None, Some example_bias)"
    by (simp add: single_token_call_def token_def example_bias_def fits_iff)
  have sa: "shape example_bias = (1, 1, 4, 4)" by (simp add: example_bias_def)
  have rg: "0 \<le> sint (0 :: 32 word)" "sint (0 :: 32 word) < int 4" by simp_all
  have d: "dtype example_module = (\<lambda>x. x)" by (simp add: example_module_def)
  have ct: "contents (bias_row example_bias 0) = [[[[0, 1, 2, 3]]]]"
    by (simp add: contents_def tabulate4_def bias_row_def example_bias_def eval_nat_numeral)
  from decode_bias_is_current_row [OF c zeros_shape zeros_shape st sa rg]
  obtain c' key' val' msk' row mb ab rng where
    db: "decode_branch example_cache (token 1 0) (token 1 0) (token 1 0) None (Some example_bias) =
        Inr (c', key', val', Some msk', Some row)"
    and re: "array_equal row (bias_row example_bias 0)"
    and mb: "mask_to_bias (\<lambda>x. x) (Some msk') = Some mb"
    and aa: "attention_arguments example_module example_cache (token 1 0) (token 1 0) (token 1 0) None
          (Some example_bias) True True None = Inr (c', key', val', Some ab, rng)"
    and bs: "broadcast_shapes (shape mb) (shape (bias_row example_bias 0)) = Some (shape ab)"
    and el: "\<forall>i j r n. elem ab i j r n =
         broadcast_at mb i j r n + broadcast_at (bias_row example_bias 0) i j r n"
    and ot: "\<forall>a'. shape a' = shape example_bias \<longrightarrow>
         array_equal (bias_row a' 0) (bias_row example_bias 0) \<longrightarrow>
         (\<exists>ab'. attention_arguments example_module example_cache (token 1 0) (token 1 0)
                   (token 1 0) None (Some a') True True None =
                   Inr (c', key', val', Some ab', rng) \<and> array_equal ab ab')"
    unfolding d by simp blast
  have t: "shape (token 1 0) = (1, 1, 1, 2)" by (simp add: token_def)
  from db have mk: "msk' = causal_mask 1 4 0"
    by (simp add: decode_branch_unfold [OF c zeros_shape zeros_shape t t t] combine_masks_def
        split: sum.splits)
  from mb mk have mbd: "mb = \<lparr>shape = (1, 1, 1, 4),
      elem = (\<lambda>i j k l. if int l \<le> 0 then 0 else - 10000000000)\<rparr>"
    by (auto simp: mask_to_bias_def causal_mask_def)
  from bs have sab: "shape ab = (1, 1, 1, 4)"
    by (simp add: mbd bias_row_def example_bias_def broadcast_shapes_def broadcast_dim_def)
  have cab: "contents ab = [[[[0, - 9999999999, - 9999999998, - 9999999997]]]]"
    using el
    by (simp add: contents_def tabulate4_def sab mbd broadcast_at_def bias_row_def example_bias_def
        bidx_def eval_nat_numeral)
  from db re mb aa bs el cab ot ct show ?thesis by blast
qed

section \<open>Priming calls\<close>

lemma attention_logits_shape:
  assumes "attention_logits q key bias = Inr lg" "shape q = (b, lq, h, d)" "shape key = (b', lk, h', d')"
  shows "shape lg = (b, h, lq, lk)"
proof (cases bias)
  case None
  with assms show ?thesis
    by (auto simp: attention_logits_def split: if_splits)
next
  case (Some a)
  with assms have f: "fits (shape a) (b, h, lq, lk)"
    and lg: "broadcast2 (+) \<lparr>shape = (b, h, lq, lk),
        elem = (\<lambda>i j q' k. \<Sum>m<d. elem q i q' j m * elem key i k j m)\<rparr> a = Inr lg"
    by (auto simp: attention_logits_def split: if_splits)
  from fits_commute [OF f] lg show ?thesis
    by (auto simp: broadcast2_def)
qed

lemma apply_attention_shape:
  assumes "apply_attention md q key val bias rng = Inr x" "shape q = (b, lq, h, d)"
  shows "\<exists>dv. shape x = (b, lq, h, dv)"
proof -
  obtain b' lk h' d' where ks: "shape key = (b', lk, h', d')" by (cases "shape key") auto
  from assms(1) obtain w where w: "attention_weights md q key bias rng = Inr w"
    by (auto simp: apply_attention_def split: sum.splits)
  then obtain lg where lg: "attention_logits q key bias = Inr lg" and ws: "shape w = shape lg"
    by (auto simp: attention_weights_def softmax_shape dropout_shape Let_def
        split: sum.splits option.splits)
  from attention_logits_shape [OF lg assms(2) ks] ws have "shape w = (b, h, lq, lk)" by simp
  with assms(1) w show ?thesis
    by (auto simp: apply_attention_def split: prod.splits if_splits)
qed

lemma attention_core_priming:
  assumes "attention_core md c q key val msk bias False det rngs = Inr (c', x)"
    and "shape q = (b, lq, h, d)"
  shows "c' = c \<and> (\<exists>dv. shape x = (b, lq, h, dv))"
proof -
  from assms(1) obtain ab rng where
    "attention_arguments md c q key val msk bias False det rngs = Inr (c', key, val, ab, rng)"
    "apply_attention md q key val ab rng = Inr x" "c' = c"
    by (auto simp: attention_core_def attention_arguments_def split: sum.splits)
  with apply_attention_shape [OF this(2) assms(2)] show ?thesis by simp
qed

lemma rotary_shape: "LLaMARotaryEmbedding base x pos = Inr y \<Longrightarrow> shape y = shape x"
  by (auto simp: LLaMARotaryEmbedding_def split: prod.splits if_splits)

text \<open>
  Claim C8. A call with \<^verbatim>\<open>decode = False\<close> that returns gives an output of the shape of
  \<^verbatim>\<open>inputs_q\<close>, \<^verbatim>\<open>(batch, L, q_features)\<close>, and returns the cache collection it was
  given: nothing is created in it and nothing is changed.
\<close>

theorem priming_call_leaves_cache:
  assumes "MultiHeadDotProductAttention_call md c inputs_q inputs_kv positions msk bias
             False det rngs = Inr (c', out)"
  shows "c' = c \<and> shape3 out = shape3 inputs_q"
proof -
  obtain b l f where sq: "shape3 inputs_q = (b, l, f)" by (cases "shape3 inputs_q") auto
  let ?q = "projection (query_kernel md) (num_heads md) (head_dim md) inputs_q"
  let ?k = "projection (key_kernel md) (num_heads md) (head_dim md) inputs_kv"
  let ?v = "projection (value_kernel md) (num_heads md) (head_dim md) inputs_kv"
  from assms obtain q' k' x where
    q': "LLaMARotaryEmbedding (rope_base md) ?q positions = Inr q'"
    and core: "attention_core md c q' k' ?v msk bias False det rngs = Inr (c', x)"
    and out: "out = out_projection (out_kernel md) (snd (snd (shape3 inputs_q))) x"
    by (auto simp: MultiHeadDotProductAttention_call_def Let_def split: sum.splits)
  have "shape q' = (b, l, num_heads md, head_dim md)"
    using rotary_shape [OF q'] by (simp add: projection_def sq)
  from attention_core_priming [OF core this] obtain dv where
    "c' = c" "shape x = (b, l, num_heads md, dv)" by blast
  then show ?thesis
    by (simp add: out out_projection_def sq)
qed

lemma priming_call_returns:
  assumes "even (head_dim md)" "fst (shape3 inputs_kv) = fst (shape3 inputs_q)"
    and "det \<or> dropout_rate md \<le> 0 \<or> rngs \<noteq> None"
  shows "\<exists>out. MultiHeadDotProductAttention_call md c inputs_q inputs_kv positions None None
             False det rngs = Inr (c, out)"
proof -
  obtain b l f where sq: "shape3 inputs_q = (b, l, f)" by (cases "shape3 inputs_q") auto
  obtain b' l' f' where sk: "shape3 inputs_kv = (b', l', f')" by (cases "shape3 inputs_kv") auto
  from assms(2) have bb: "b' = b" by (simp add: sq sk)
  let ?q = "projection (query_kernel md) (num_heads md) (head_dim md) inputs_q"
  let ?k = "projection (key_kernel md) (num_heads md) (head_dim md) inputs_kv"
  let ?v = "projection (value_kernel md) (num_heads md) (head_dim md) inputs_kv"
  have qs: "shape ?q = (b, l, num_heads md, head_dim md)" by (simp add: projection_def sq)
  have ks: "shape ?k = (b, l', num_heads md, head_dim md)" by (simp add: projection_def sk bb)
  have vs: "shape ?v = (b, l', num_heads md, head_dim md)" by (simp add: projection_def sk bb)
  obtain q' where q': "LLaMARotaryEmbedding (rope_base md) ?q positions = Inr q'"
    "shape q' = (b, l, num_heads md, head_dim md)"
    using assms(1) qs by (simp add: LLaMARotaryEmbedding_def)
  obtain k' where k': "LLaMARotaryEmbedding (rope_base md) ?k positions = Inr k'"
    "shape k' = (b, l', num_heads md, head_dim md)"
    using assms(1) ks by (simp add: LLaMARotaryEmbedding_def)
  from dropout_rng_ok [OF assms(3)] obtain r where
    r: "dropout_rng (rng_fold md) det (dropout_rate md) rngs = Inr r" by blast
  from apply_attention_ok [OF q'(2) k'(2) vs, of None md r] obtain x where
    x: "apply_attention md q' k' ?v None r = Inr x" by auto
  show ?thesis
    using q'(1) k'(1) r x
    by (simp add: MultiHeadDotProductAttention_call_def attention_core_def
        attention_arguments_def compose_bias_def mask_to_bias_def)
qed

text \<open>
  A priming call on the empty collection returns, leaves the collection empty and gives
  an output of the shape of its input.
\<close>

theorem priming_call_witness:
  "\<exists>out. MultiHeadDotProductAttention_call example_module empty_cache example_inputs
       example_inputs None None None False True None = Inr (empty_cache, out) \<and>
     shape3 out = (1, 3, 5)"
proof -
  from priming_call_returns [of example_module example_inputs example_inputs True None
      empty_cache None]
  obtain out where r: "MultiHeadDotProductAttention_call example_module empty_cache
      example_inputs example_inputs None None None False True None = Inr (empty_cache, out)"
    by (auto simp: example_module_def)
  from priming_call_leaves_cache [OF r] have "shape3 out = (1, 3, 5)"
    by (simp add: example_inputs_def)
  with r show ?thesis by blast
qed

text \<open>
  With dropout off no key is drawn, and the key that a caller supplies has no effect on
  the call.
\<close>

lemma dropout_rng_disabled:
  "det \<or> rate \<le> 0 \<Longrightarrow> dropout_rng derive det rate rngs = Inr None"
  by (auto simp: dropout_rng_def)

lemma dropout_key_unused_when_disabled:
  assumes "det \<or> dropout_rate md \<le> 0"
  shows "MultiHeadDotProductAttention_call md c inputs_q inputs_kv positions msk bias decode det rngs =
    MultiHeadDotProductAttention_call md c inputs_q inputs_kv positions msk bias decode det rngs'"
proof -
  have "dropout_rng (rng_fold md) det (dropout_rate md) rngs = Inr None"
    "dropout_rng (rng_fold md) det (dropout_rate md) rngs' = Inr None"
    using assms by (simp_all add: dropout_rng_disabled)
  then have "attention_arguments md c q k v msk bias decode det rngs =
             attention_arguments md c q k v msk bias decode det rngs'" for q k v
    by (simp add: attention_arguments_def split: sum.splits prod.splits)
  then have "attention_core md c q k v msk bias decode det rngs =
             attention_core md c q k v msk bias decode det rngs'" for q k v
    by (simp add: attention_core_def)
  then show ?thesis
    by (simp add: MultiHeadDotProductAttention_call_def split: sum.splits)
qed

section \<open>The depth scaling\<close>

lemma projection_scaled:
  "projection (\<lambda>e j m. w e j m / s) nh dh x =
     \<lparr>shape = shape (projection w nh dh x),
      elem = (\<lambda>i t j m. elem (projection w nh dh x) i t j m / s)\<rparr>"
  by (cases "shape3 x") (simp add: projection_def sum_divide_distrib)

lemma rotary_scaled:
  "LLaMARotaryEmbedding base \<lparr>shape = shape x, elem = (\<lambda>i t j m. elem x i t j m / s)\<rparr> pos =
     (case LLaMARotaryEmbedding base x pos of Inl e \<Rightarrow> Inl e
      | Inr y \<Rightarrow> Inr \<lparr>shape = shape y, elem = (\<lambda>i t j m. elem y i t j m / s)\<rparr>)"
  by (cases "shape x")
    (auto simp: LLaMARotaryEmbedding_def Let_def diff_divide_distrib add_divide_distrib
      intro!: ext)

lemma logits_scaled:
  "attention_logits \<lparr>shape = shape q, elem = (\<lambda>i t j m. elem q i t j m / s)\<rparr> key None =
     divide_logits s (attention_logits q key None)"
  by (cases "shape q"; cases "shape key")
    (auto simp: attention_logits_def divide_logits_def sum_divide_distrib intro!: ext)

text \<open>
  Claim C7. At initialization the kernel of the query projection is the module's
  initializer divided by \<^verbatim>\<open>sqrt(head_dim)\<close>, and the kernels of the key and value
  projections are the initializer as it is. The logits are the plain products of query
  and key, with no factor applied at call time, so that the scaled query kernel gives
  the logits of the unscaled one divided by \<^verbatim>\<open>sqrt(head_dim)\<close>.
\<close>

theorem depth_scaling_in_query_init:
  "query_kernel (init_kernels kernel_init aq ak av ao md) =
     (\<lambda>e j m. kernel_init aq e j m / sqrt (real (head_dim md))) \<and>
   key_kernel (init_kernels kernel_init aq ak av ao md) = kernel_init ak \<and>
   value_kernel (init_kernels kernel_init aq ak av ao md) = kernel_init av \<and>
   query_logits md (query_kernel (init_kernels kernel_init aq ak av ao md)) inputs_q positions key =
     divide_logits (sqrt (real (head_dim md)))
       (query_logits md (kernel_init aq) inputs_q positions key) \<and>
   (\<forall>q k b lq lk h d. shape q = (b, lq, h, d) \<longrightarrow> shape k = (b, lk, h, d) \<longrightarrow>
      attention_logits q k None =
        Inr \<lparr>shape = (b, h, lq, lk),
             elem = (\<lambda>i j r n. \<Sum>m<d. elem q i r j m * elem k i n j m)\<rparr>)"
proof -
  let ?s = "sqrt (real (head_dim md))"
  have qk: "query_kernel (init_kernels kernel_init aq ak av ao md) =
     (\<lambda>e j m. kernel_init aq e j m / ?s)"
    by (simp add: init_kernels_def query_init_def depth_scaling_def)
  have "query_logits md (\<lambda>e j m. kernel_init aq e j m / ?s) inputs_q positions key =
     divide_logits ?s (query_logits md (kernel_init aq) inputs_q positions key)"
    by (simp add: query_logits_def projection_scaled rotary_scaled logits_scaled
        divide_logits_def split: sum.splits)
  moreover have "\<forall>q k b lq lk h d. shape q = (b, lq, h, d) \<longrightarrow> shape k = (b, lk, h, d) \<longrightarrow>
      attention_logits q k None =
        Inr \<lparr>shape = (b, h, lq, lk),
             elem = (\<lambda>i j r n. \<Sum>m<d. elem q i r j m * elem k i n j m)\<rparr>"
    by (simp add: attention_logits_def)
  ultimately show ?thesis
    by (simp add: qk) (simp add: init_kernels_def)
qed

text \<open>
  With \<^verbatim>\<open>head_dim = 4\<close> an initializer value 6 gives the query kernel 3.
\<close>

theorem depth_scaling_witness:
  "query_kernel (init_kernels example_init 6 1 1 1 (example_module\<lparr>head_dim := 4\<rparr>)) 0 0 0 = 3 \<and>
   key_kernel (init_kernels example_init 6 1 1 1 (example_module\<lparr>head_dim := 4\<rparr>)) 0 0 0 = 1 \<and>
   value_kernel (init_kernels example_init 6 1 1 1 (example_module\<lparr>head_dim := 4\<rparr>)) 0 0 0 = 1 \<and>
   attention_logits (token 1 2) (token 3 4) None =
     Inr \<lparr>shape = (1, 1, 1, 1),
          elem = (\<lambda>i j r n. \<Sum>m<2. elem (token 1 2) i r j m * elem (token 3 4) i n j m)\<rparr>"
proof -
  have s: "sqrt (real (head_dim (example_module\<lparr>head_dim := 4\<rparr>))) = 2"
    by simp
  from depth_scaling_in_query_init [of example_init 6 1 1 1 "example_module\<lparr>head_dim := 4\<rparr>"
      example_inputs None "token 3 4"]
  show ?thesis
    unfolding s by (simp add: example_init_def token_def)
qed

section \<open>The decoder layer and its feed-forward input\<close>

lemma DecoderLayer_call_mlp_input:
  "DecoderLayer_call layer c inputs deterministic decode =
     (case self_attention layer c (pre_self_attention_norm layer inputs)
             (pre_self_attention_norm layer inputs) deterministic decode of
        Inl e \<Rightarrow> Inl e
      | Inr (c', attention_lnx) \<Rightarrow>
          (let layer_output =
                 layer_dropout layer
                   (mlp layer (pre_self_attention_norm layer inputs) deterministic +
                    (inputs + attention_lnx)) deterministic
           in Inr (c', if scan_layers layer then WithCarry layer_output else Output layer_output,
                   if record_internal_nn_metrics layer
                   then Some (activation_metrics layer layer_output) else None)))"
  by (simp add: DecoderLayer_call_def Let_def split: sum.splits prod.splits)

lemma DecoderLayer_call_ignores_post_norm:
  "DecoderLayer_call (layer\<lparr>post_self_attention_layer_norm := f\<rparr>) c inputs deterministic decode =
   DecoderLayer_call (layer\<lparr>post_self_attention_layer_norm := g\<rparr>) c inputs deterministic decode"
  by (simp add: DecoderLayer_call_mlp_input Let_def split: sum.splits prod.splits)

text \<open>
  Claim C5 says that the feed-forward block receives the post-attention normalization
  of the attention-plus-residual tensor. The layer of the source gives it \<^verbatim>\<open>lnx\<close>, the
  pre-attention normalization of the inputs (line 399 overwrites \<^verbatim>\<open>hidden_states\<close>): on
  the input 1 the example layer returns \<open>2 + (1 + 2) = 5\<close>, where the layer of the
  specification returns \<open>3 * (1 + 2) + (1 + 2) = 12\<close>.
\<close>

theorem mlp_receives_pre_attention_norm:
  "DecoderLayer_call example_layer empty_cache 1 True False = Inr (empty_cache, Output 5, None) \<and>
   DecoderLayer_spec example_layer empty_cache 1 True False = Inr (empty_cache, Output 12, None)"
  by (simp add: DecoderLayer_call_def DecoderLayer_spec_def example_layer_def)

end
